theory Spec2Isabelle
  imports Main
begin

section \<open>Python strings\<close>

text \<open>
  A Python \<open>str\<close> is modelled as a \<^typ>\<open>string\<close>; a \<^typ>\<open>char\<close> stands for the code
  point of the same number, so the model covers texts over U+0000 .. U+00FF.
\<close>

definition nl :: char where
  "nl = CHR 0x0A"

definition dq :: char where
  "dq = CHR 0x22"

definition bslash :: char where
  "bslash = CHR 0x5C"

definition sq :: char where
  "sq = CHR 0x27"

text \<open>\<open>str.isspace\<close> on one character, which is also the class \<open>\s\<close> of \<open>re\<close>.\<close>

definition isspace :: "char \<Rightarrow> bool" where
  "isspace c = (let n = (of_char c :: nat) in
     (9 \<le> n \<and> n \<le> 13) \<or> (28 \<le> n \<and> n \<le> 32) \<or> n = 133 \<or> n = 160)"

text \<open>\<open>s.startswith(p)\<close>.\<close>

definition startswith :: "string \<Rightarrow> string \<Rightarrow> bool" where
  "startswith s p = (take (length p) s = p)"

text \<open>\<open>s.strip()\<close>: whitespace removed at both ends.\<close>

definition strip :: "string \<Rightarrow> string" where
  "strip s = rev (dropWhile isspace (rev (dropWhile isspace s)))"

text \<open>\<open>sub in s\<close>.\<close>

fun contains :: "string \<Rightarrow> string \<Rightarrow> bool" where
  "contains sub [] = (sub = [])"
| "contains sub (c # s) = (startswith (c # s) sub \<or> contains sub s)"

text \<open>
  \<open>s.count(sub)\<close>: the occurrences found scanning from the left, each search resuming
  after the end of the previous occurrence; the empty string is counted once at every
  position, \<open>len(s) + 1\<close> times.
\<close>

function count_nonempty :: "string \<Rightarrow> string \<Rightarrow> nat" where
  "count_nonempty sub [] = 0"
| "count_nonempty sub (c # s) =
     (if sub \<noteq> [] \<and> startswith (c # s) sub
      then Suc (count_nonempty sub (drop (length sub) (c # s)))
      else count_nonempty sub s)"
  by pat_completeness auto
termination
  by (relation "measure (\<lambda>(sub, s). length s)") auto

definition count :: "string \<Rightarrow> string \<Rightarrow> nat" where
  "count s sub = (if sub = [] then length s + 1 else count_nonempty sub s)"

text \<open>
  \<open>s.replace(old, new)\<close>: every occurrence that \<open>count\<close> counts is replaced; an
  empty \<open>old\<close> puts \<open>new\<close> before every character and at the end.
\<close>

function replace_nonempty :: "string \<Rightarrow> string \<Rightarrow> string \<Rightarrow> string" where
  "replace_nonempty old new [] = []"
| "replace_nonempty old new (c # s) =
     (if old \<noteq> [] \<and> startswith (c # s) old
      then new @ replace_nonempty old new (drop (length old) (c # s))
      else c # replace_nonempty old new s)"
  by pat_completeness auto
termination
  by (relation "measure (\<lambda>(old, new, s). length s)") auto

definition replace :: "string \<Rightarrow> string \<Rightarrow> string \<Rightarrow> string" where
  "replace s old new =
     (if old = [] then new @ concat (map (\<lambda>c. c # new) s) else replace_nonempty old new s)"

text \<open>\<open>sep.join(xs)\<close>.\<close>

fun join :: "string \<Rightarrow> string list \<Rightarrow> string" where
  "join sep [] = []"
| "join sep [x] = x"
| "join sep (x # y # ys) = x @ sep @ join sep (y # ys)"

text \<open>\<open>s.split(sep)\<close> for a separator of one character.\<close>

fun split_chr :: "char \<Rightarrow> string \<Rightarrow> string list" where
  "split_chr sep [] = [[]]"
| "split_chr sep (c # s) =
     (case split_chr sep s of
        [] \<Rightarrow> [[]]
      | w # ws \<Rightarrow> if c = sep then [] # w # ws else (c # w) # ws)"

text \<open>\<open>str(n)\<close> for an integer: decimal digits, with a sign when negative.\<close>

definition digit_chr :: "nat \<Rightarrow> char" where
  "digit_chr d = ''0123456789'' ! d"

function str_nat :: "nat \<Rightarrow> string" where
  "str_nat n = (if n < 10 then [digit_chr n] else str_nat (n div 10) @ [digit_chr (n mod 10)])"
  by pat_completeness auto
termination
  by (relation "measure id") auto

definition str_int :: "int \<Rightarrow> string" where
  "str_int i = (if i < 0 then CHR ''-'' # str_nat (nat (- i)) else str_nat (nat i))"

section \<open>Regular expressions\<close>

text \<open>
  The part of Python's \<open>re\<close> that the source uses: literals, one-character classes under
  a greedy \<open>*\<close>, \<open>+\<close> or \<open>?\<close> or a lazy \<open>*?\<close>, and one capturing group. Matching
  is by backtracking, in the order \<open>re\<close> tries the alternatives: a greedy repetition
  takes as many characters as it can and gives them back one at a time, a lazy one takes
  none and adds one at a time. A matcher gets the matcher of the rest of the pattern as
  its continuation; the first success is the match.
\<close>

datatype cclass =
    Dot       \<comment> \<open>\<open>.\<close> under \<open>re.DOTALL\<close>\<close>
  | WS        \<comment> \<open>\<open>\s\<close>\<close>
  | NoBrace   \<comment> \<open>\<open>[^{}]\<close>\<close>
  | NoQuote   \<comment> \<open>\<open>[^"]\<close>\<close>
  | Word      \<comment> \<open>\<open>\w\<close>\<close>

text \<open>\<open>str.isalnum\<close> on one character (code points below 256).\<close>

definition isalnum :: "char \<Rightarrow> bool" where
  "isalnum c = (let n = (of_char c :: nat) in
     (48 \<le> n \<and> n \<le> 57) \<or> (65 \<le> n \<and> n \<le> 90) \<or> (97 \<le> n \<and> n \<le> 122) \<or>
     n = 170 \<or> n = 178 \<or> n = 179 \<or> n = 181 \<or> n = 185 \<or> n = 186 \<or>
     (188 \<le> n \<and> n \<le> 190) \<or> (192 \<le> n \<and> n \<le> 214) \<or> (216 \<le> n \<and> n \<le> 246) \<or>
     248 \<le> n)"

fun in_class :: "cclass \<Rightarrow> char \<Rightarrow> bool" where
  "in_class Dot c = True"
| "in_class WS c = isspace c"
| "in_class NoBrace c = (c \<noteq> CHR ''{'' \<and> c \<noteq> CHR ''}'')"
| "in_class NoQuote c = (c \<noteq> dq)"
| "in_class Word c = (isalnum c \<or> c = CHR ''_'')"

datatype rx =
    Lit string        \<comment> \<open>the characters themselves\<close>
  | Star cclass       \<comment> \<open>\<open>C*\<close>\<close>
  | Plus cclass       \<comment> \<open>\<open>C+\<close>\<close>
  | LazyStar cclass   \<comment> \<open>\<open>C*?\<close>\<close>
  | Opt char          \<comment> \<open>\<open>c?\<close>\<close>
  | GroupOpen         \<comment> \<open>\<open>(\<close>\<close>
  | GroupClose        \<comment> \<open>\<open>)\<close>\<close>

text \<open>
  The state of a match: the input still to be read, the input as it was where the group
  opened, and the text the group captured.
\<close>

type_synonym mstate = "string \<times> string \<times> string"

fun star_greedy :: "(char \<Rightarrow> bool) \<Rightarrow> (string \<Rightarrow> 'a option) \<Rightarrow> string \<Rightarrow> 'a option" where
  "star_greedy P k [] = k []"
| "star_greedy P k (c # s) =
     (if P c
      then (case star_greedy P k s of Some r \<Rightarrow> Some r | None \<Rightarrow> k (c # s))
      else k (c # s))"

fun star_lazy :: "(char \<Rightarrow> bool) \<Rightarrow> (string \<Rightarrow> 'a option) \<Rightarrow> string \<Rightarrow> 'a option" where
  "star_lazy P k [] = k []"
| "star_lazy P k (c # s) =
     (case k (c # s) of
        Some r \<Rightarrow> Some r
      | None \<Rightarrow> if P c then star_lazy P k s else None)"

fun rx_match :: "rx \<Rightarrow> (mstate \<Rightarrow> mstate option) \<Rightarrow> mstate \<Rightarrow> mstate option" where
  "rx_match (Lit l) k (s, mk, g) =
     (if startswith s l then k (drop (length l) s, mk, g) else None)"
| "rx_match (Star C) k (s, mk, g) = star_greedy (in_class C) (\<lambda>s'. k (s', mk, g)) s"
| "rx_match (Plus C) k (s, mk, g) =
     (case s of
        [] \<Rightarrow> None
      | c # s' \<Rightarrow> if in_class C c then star_greedy (in_class C) (\<lambda>s''. k (s'', mk, g)) s' else None)"
| "rx_match (LazyStar C) k (s, mk, g) = star_lazy (in_class C) (\<lambda>s'. k (s', mk, g)) s"
| "rx_match (Opt c) k (s, mk, g) =
     (case s of
        [] \<Rightarrow> k (s, mk, g)
      | c' # s' \<Rightarrow>
          if c' = c
          then (case k (s', mk, g) of Some r \<Rightarrow> Some r | None \<Rightarrow> k (s, mk, g))
          else k (s, mk, g))"
| "rx_match GroupOpen k (s, mk, g) = k (s, s, g)"
| "rx_match GroupClose k (s, mk, g) = k (s, mk, take (length mk - length s) mk)"

text \<open>A pattern is the sequence of its parts.\<close>

definition match_here :: "rx list \<Rightarrow> string \<Rightarrow> mstate option" where
  "match_here p s = foldr rx_match p Some (s, [], [])"

text \<open>
  \<open>re.search\<close>: the match at the leftmost position that has one. The result is the
  input from the start of the match on, and the state at the end of the match.
\<close>

fun re_search :: "rx list \<Rightarrow> string \<Rightarrow> (string \<times> mstate) option" where
  "re_search p [] = (case match_here p [] of Some m \<Rightarrow> Some ([], m) | None \<Rightarrow> None)"
| "re_search p (c # s) =
     (case match_here p (c # s) of Some m \<Rightarrow> Some (c # s, m) | None \<Rightarrow> re_search p s)"

text \<open>
  \<open>re.findall\<close>: the matches from left to right, each search starting where the
  previous match ended (one character further after an empty match). With \<open>grp\<close> the
  result lists what the group captured, otherwise the matched text.
\<close>

definition resume :: "string \<Rightarrow> string \<Rightarrow> string" where
  "resume start rest = (if length rest < length start then rest else drop 1 start)"

function findall :: "bool \<Rightarrow> rx list \<Rightarrow> string \<Rightarrow> string list" where
  "findall grp p s =
     (case re_search p s of
        None \<Rightarrow> []
      | Some (start, rest, mk, g) \<Rightarrow>
          (if grp then g else take (length start - length rest) start) #
          (if length (resume start rest) < length s then findall grp p (resume start rest) else []))"
  by pat_completeness auto
termination
  by (relation "measure (\<lambda>(grp, p, s). length s)") auto

section \<open>JSON values and \<open>json.loads\<close>\<close>

text \<open>
  What \<open>json.loads\<close> returns: \<open>None\<close>, a \<open>bool\<close>, an \<open>int\<close> (unbounded), a
  \<open>float\<close>, a \<open>str\<close>, a \<open>list\<close> or a \<open>dict\<close> with string keys. A float is kept as
  the literal it was read from; which floats compare equal is left to the environment.
  A \<open>dict\<close> is the list of its items in insertion order, keys distinct.
\<close>

datatype json =
    JNull
  | JBool bool
  | JInt int
  | JFloat string
  | JStr string
  | JArr "json list"
  | JObj "(string \<times> json) list"

text \<open>\<open>d[k] = v\<close> on the items of a \<open>dict\<close>: a key that is present keeps its place.\<close>

fun dict_set :: "(string \<times> json) list \<Rightarrow> string \<Rightarrow> json \<Rightarrow> (string \<times> json) list" where
  "dict_set [] k v = [(k, v)]"
| "dict_set ((k', v') # d) k v = (if k' = k then (k, v) # d else (k', v') # dict_set d k v)"

text \<open>\<open>dict(pairs)\<close>.\<close>

definition dict_of :: "(string \<times> json) list \<Rightarrow> (string \<times> json) list" where
  "dict_of pairs = foldl (\<lambda>d (k, v). dict_set d k v) [] pairs"

datatype 'a scan = Ok 'a string | Bad | Starved

definition json_ws :: "char \<Rightarrow> bool" where
  "json_ws c = (c = CHR '' '' \<or> c = CHR 0x09 \<or> c = CHR 0x0A \<or> c = CHR 0x0D)"

definition skip_ws :: "string \<Rightarrow> string" where
  "skip_ws s = dropWhile json_ws s"

definition isdigit :: "char \<Rightarrow> bool" where
  "isdigit c = (48 \<le> (of_char c :: nat) \<and> (of_char c :: nat) \<le> 57)"

definition hexval :: "char \<Rightarrow> nat option" where
  "hexval c = (let n = (of_char c :: nat) in
     if 48 \<le> n \<and> n \<le> 57 then Some (n - 48)
     else if 65 \<le> n \<and> n \<le> 70 then Some (n - 55)
     else if 97 \<le> n \<and> n \<le> 102 then Some (n - 87)
     else None)"

text \<open>The four hexadecimal digits of an escape \<open>uXXXX\<close>.\<close>

definition decode_uXXXX :: "char \<Rightarrow> char \<Rightarrow> char \<Rightarrow> char \<Rightarrow> nat option" where
  "decode_uXXXX a b c d =
     (case (hexval a, hexval b, hexval c, hexval d) of
        (Some w, Some x, Some y, Some z) \<Rightarrow> Some (((w * 16 + x) * 16 + y) * 16 + z)
      | _ \<Rightarrow> None)"

text \<open>The table \<open>BACKSLASH\<close> of \<open>json.decoder\<close>.\<close>

definition backslash :: "char \<Rightarrow> char option" where
  "backslash e =
     (if e = dq then Some dq
      else if e = bslash then Some bslash
      else if e = CHR ''/'' then Some (CHR ''/'')
      else if e = CHR ''b'' then Some (CHR 0x08)
      else if e = CHR ''f'' then Some (CHR 0x0C)
      else if e = CHR ''n'' then Some (CHR 0x0A)
      else if e = CHR ''r'' then Some (CHR 0x0D)
      else if e = CHR ''t'' then Some (CHR 0x09)
      else None)"

text \<open>
  \<open>scanstring\<close> in strict mode, from the character after the opening quote: the decoded
  string and the input after the closing quote. \<open>None\<close> is a \<open>JSONDecodeError\<close>. An
  escape \<open>uXXXX\<close> above \<open>00FF\<close> names a character this model of \<open>str\<close> does not
  have; the model rejects it.
\<close>

fun scanstring :: "string \<Rightarrow> (string \<times> string) option" where
  "scanstring [] = None"
| "scanstring (c # s) =
     (if c = dq then Some ([], s)
      else if c = bslash then
        (case s of
           [] \<Rightarrow> None
         | e # s' \<Rightarrow>
             if e = CHR ''u'' then
               (case s' of
                  h1 # h2 # h3 # h4 # r \<Rightarrow>
                    (case decode_uXXXX h1 h2 h3 h4 of
                       None \<Rightarrow> None
                     | Some n \<Rightarrow>
                         if n < 256 then
                           (case scanstring r of
                              None \<Rightarrow> None
                            | Some (t, rest) \<Rightarrow> Some (char_of n # t, rest))
                         else None)
                | _ \<Rightarrow> None)
             else
               (case backslash e of
                  None \<Rightarrow> None
                | Some ch \<Rightarrow>
                    (case scanstring s' of
                       None \<Rightarrow> None
                     | Some (t, rest) \<Rightarrow> Some (ch # t, rest))))
      else if (of_char c :: nat) < 32 then None
      else (case scanstring s of None \<Rightarrow> None | Some (t, rest) \<Rightarrow> Some (c # t, rest)))"

text \<open>\<open>int(digits)\<close> for decimal digits.\<close>

definition int_of_digits :: "string \<Rightarrow> int" where
  "int_of_digits ds = foldl (\<lambda>a d. 10 * a + (int (of_char d) - 48)) 0 ds"

text \<open>
  \<open>NUMBER_RE\<close>, \<open>(-?(?:0|[1-9]\d*))(\.\d+)?([eE][-+]?\d+)?\<close>, matched at the start of the
  input: the value and the input after the number. A literal with a fraction or an
  exponent is a float.
\<close>

definition scan_number :: "string \<Rightarrow> (json \<times> string) option" where
  "scan_number s =
     (let sign = (if startswith s ''-'' then ''-'' else []);
          s1 = drop (length sign) s
      in case s1 of
           [] \<Rightarrow> None
         | d # r \<Rightarrow>
             if \<not> isdigit d then None
             else
               let digits = (if d = CHR ''0'' then [d] else d # takeWhile isdigit r);
                   s2 = drop (length digits) s1;
                   frac = (case s2 of
                             p # f # r' \<Rightarrow>
                               if p = CHR ''.'' \<and> isdigit f then p # takeWhile isdigit (f # r') else []
                           | _ \<Rightarrow> []);
                   s3 = drop (length frac) s2;
                   exp = (case s3 of
                            e # r' \<Rightarrow>
                              if e = CHR ''e'' \<or> e = CHR ''E'' then
                                (let sg = (if startswith r' ''-'' then ''-''
                                           else if startswith r' ''+'' then ''+'' else []);
                                     ds = takeWhile isdigit (drop (length sg) r')
                                 in if ds = [] then [] else e # sg @ ds)
                              else []
                          | [] \<Rightarrow> []);
                   s4 = drop (length exp) s3
               in if frac = [] \<and> exp = []
                  then Some (JInt ((if sign = [] then 1 else - 1) * int_of_digits digits), s4)
                  else Some (JFloat (sign @ digits @ frac @ exp), s4))"

text \<open>
  The scanner of \<open>json.scanner\<close> with \<open>JSONObject\<close> and \<open>JSONArray\<close> of
  \<open>json.decoder\<close>; the latter two are entered after the first key's opening quote and at
  the first element. The first argument bounds the number of nested calls;
  \<open>json_loads\<close> starts with more than the length of the input, and every call reads a
  character, so \<open>Starved\<close> is never its result.
\<close>

fun scan_once :: "nat \<Rightarrow> string \<Rightarrow> json scan"
  and JSONObject :: "nat \<Rightarrow> (string \<times> json) list \<Rightarrow> string \<Rightarrow> json scan"
  and JSONArray :: "nat \<Rightarrow> json list \<Rightarrow> string \<Rightarrow> json scan" where
  "scan_once 0 s = Starved"
| "scan_once (Suc n) [] = Bad"
| "scan_once (Suc n) (c # r) =
     (if c = dq then
        (case scanstring r of None \<Rightarrow> Bad | Some (t, rest) \<Rightarrow> Ok (JStr t) rest)
      else if c = CHR ''{'' then
        (case skip_ws r of
           [] \<Rightarrow> Bad
         | c' # r' \<Rightarrow>
             if c' = CHR ''}'' then Ok (JObj []) r'
             else if c' = dq then JSONObject n [] r'
             else Bad)
      else if c = CHR ''['' then
        (case skip_ws r of
           [] \<Rightarrow> Bad
         | c' # r' \<Rightarrow> if c' = CHR '']'' then Ok (JArr []) r' else JSONArray n [] (c' # r'))
      else if startswith (c # r) ''null'' then Ok JNull (drop 4 (c # r))
      else if startswith (c # r) ''true'' then Ok (JBool True) (drop 4 (c # r))
      else if startswith (c # r) ''false'' then Ok (JBool False) (drop 5 (c # r))
      else
        (case scan_number (c # r) of
           Some (v, rest) \<Rightarrow> Ok v rest
         | None \<Rightarrow>
             if startswith (c # r) ''NaN'' then Ok (JFloat ''NaN'') (drop 3 (c # r))
             else if startswith (c # r) ''Infinity'' then Ok (JFloat ''Infinity'') (drop 8 (c # r))
             else if startswith (c # r) ''-Infinity'' then Ok (JFloat ''-Infinity'') (drop 9 (c # r))
             else Bad))"
| "JSONObject 0 pairs s = Starved"
| "JSONObject (Suc n) pairs s =
     (case scanstring s of
        None \<Rightarrow> Bad
      | Some (key, r1) \<Rightarrow>
          (case skip_ws r1 of
             [] \<Rightarrow> Bad
           | c # r2 \<Rightarrow>
               if c \<noteq> CHR '':'' then Bad
               else
                 (case scan_once n (skip_ws r2) of
                    Bad \<Rightarrow> Bad
                  | Starved \<Rightarrow> Starved
                  | Ok v r3 \<Rightarrow>
                      (case skip_ws r3 of
                         [] \<Rightarrow> Bad
                       | c' # r4 \<Rightarrow>
                           if c' = CHR ''}'' then Ok (JObj (dict_of (pairs @ [(key, v)]))) r4
                           else if c' \<noteq> CHR '','' then Bad
                           else
                             (case skip_ws r4 of
                                [] \<Rightarrow> Bad
                              | q # r5 \<Rightarrow>
                                  if q = dq then JSONObject n (pairs @ [(key, v)]) r5
                                  else Bad)))))"
| "JSONArray 0 vals s = Starved"
| "JSONArray (Suc n) vals s =
     (case scan_once n s of
        Bad \<Rightarrow> Bad
      | Starved \<Rightarrow> Starved
      | Ok v r \<Rightarrow>
          (case skip_ws r of
             [] \<Rightarrow> Bad
           | c # r1 \<Rightarrow>
               if c = CHR '']'' then Ok (JArr (vals @ [v])) r1
               else if c = CHR '','' then JSONArray n (vals @ [v]) (skip_ws r1)
               else Bad))"

text \<open>
  \<open>json.loads(s)\<close> for a \<open>str\<close>: whitespace, one value, whitespace, end of input.
  \<open>None\<close> is a \<open>JSONDecodeError\<close>.
\<close>

definition json_loads :: "string \<Rightarrow> json option" where
  "json_loads s =
     (case scan_once (Suc (length s)) (skip_ws s) of
        Ok v rest \<Rightarrow> if skip_ws rest = [] then Some v else None
      | Bad \<Rightarrow> None
      | Starved \<Rightarrow> None)"

section \<open>Exceptions, files and the environment\<close>

text \<open>The exceptions that the modelled code can meet.\<close>

datatype exn =
    KeyError string        \<comment> \<open>a missing \<open>dict\<close> key\<close>
  | TypeError              \<comment> \<open>a value of the wrong type\<close>
  | AttributeError         \<comment> \<open>a method the value does not have\<close>
  | FileNotFoundError
  | TimeoutExpired
  | CalledProcessError int  \<comment> \<open>a process that \<open>check=True\<close> found with a nonzero exit status\<close>
  | OtherError string      \<comment> \<open>any other \<open>Exception\<close>, by what the environment tells about it\<close>

text \<open>A finished process: \<open>subprocess.CompletedProcess\<close> with captured text.\<close>

record completed =
  stdout :: string
  stderr :: string
  returncode :: int

datatype cmdline =
    ShellCmd string        \<comment> \<open>a command string, \<open>shell=True\<close>\<close>
  | Argv "string list"     \<comment> \<open>an argument vector\<close>

text \<open>
  The machine the agent runs on. \<open>files\<close> holds the content of every regular file by
  its path; \<open>unreadable\<close> and \<open>unwritable\<close> give, for a path that cannot be opened in
  that mode, the exception \<open>open\<close> raises; \<open>uncreatable\<close> gives the exception
  \<open>os.makedirs\<close> raises for a directory; \<open>beyond\<close> is everything else (processes,
  the network, the model server).
\<close>

record 'x world =
  files :: "string \<rightharpoonup> string"
  unreadable :: "string \<rightharpoonup> exn"
  unwritable :: "string \<rightharpoonup> exn"
  uncreatable :: "string \<rightharpoonup> exn"
  beyond :: 'x

text \<open>\<open>open(path, "r").read()\<close>.\<close>

definition read_text :: "'x world \<Rightarrow> string \<Rightarrow> exn + string" where
  "read_text w path =
     (case unreadable w path of
        Some e \<Rightarrow> Inl e
      | None \<Rightarrow> (case files w path of None \<Rightarrow> Inl FileNotFoundError | Some c \<Rightarrow> Inr c))"

text \<open>
  \<open>open(path, "w").write(content)\<close>: opening truncates the file; writing a value that
  is not a \<open>str\<close> raises after that.
\<close>

definition write_text :: "'x world \<Rightarrow> string \<Rightarrow> json \<Rightarrow> exn option \<times> 'x world" where
  "write_text w path content =
     (case unwritable w path of
        Some e \<Rightarrow> (Some e, w)
      | None \<Rightarrow>
          (case content of
             JStr c \<Rightarrow> (None, w\<lparr>files := (files w)(path \<mapsto> c)\<rparr>)
           | _ \<Rightarrow> (Some TypeError, w\<lparr>files := (files w)(path \<mapsto> [])\<rparr>)))"

text \<open>\<open>os.makedirs(d, exist_ok=True)\<close>; directories are not part of \<open>files\<close>.\<close>

definition makedirs :: "'x world \<Rightarrow> string \<Rightarrow> exn option" where
  "makedirs w d = (if d = [] then Some FileNotFoundError else uncreatable w d)"

text \<open>\<open>os.path.isabs\<close>, \<open>os.path.join\<close> of two parts and \<open>os.path.dirname\<close> (POSIX).\<close>

definition isabs :: "string \<Rightarrow> bool" where
  "isabs p = startswith p ''/''"

definition path_join :: "string \<Rightarrow> string \<Rightarrow> string" where
  "path_join a b =
     (if isabs b then b
      else if a = [] \<or> last a = CHR ''/'' then a @ b
      else a @ ''/'' @ b)"

definition dirname :: "string \<Rightarrow> string" where
  "dirname p =
     (let head = rev (dropWhile (\<lambda>c. c \<noteq> CHR ''/'') (rev p))
      in if head \<noteq> [] \<and> \<not> list_all (\<lambda>c. c = CHR ''/'') head
         then rev (dropWhile (\<lambda>c. c = CHR ''/'') (rev head))
         else head)"

text \<open>
  What the code takes from outside itself. The capabilities read and change the
  \<^typ>\<open>'x world\<close>; the remaining fields are the interpreter's own: the text of an
  exception, and the behaviour of floats, which a \<^typ>\<open>json\<close> value keeps as literals.
\<close>

record 'x env =
  project_root :: string
    \<comment> \<open>\<open>get_project_root()\<close>\<close>
  exn_str :: "exn \<Rightarrow> string"
    \<comment> \<open>\<open>str(e)\<close>\<close>
  float_eq :: "string \<Rightarrow> string \<Rightarrow> bool"
    \<comment> \<open>\<open>==\<close> on the floats of two literals\<close>
  float_eq_int :: "string \<Rightarrow> int \<Rightarrow> bool"
    \<comment> \<open>\<open>==\<close> on the float of a literal and an \<open>int\<close>\<close>
  float_nonzero :: "string \<Rightarrow> bool"
    \<comment> \<open>\<open>bool(x)\<close> for the float of a literal\<close>
  float_str :: "string \<Rightarrow> string"
    \<comment> \<open>\<open>str(x)\<close> for the float of a literal\<close>
  subprocess_run :: "cmdline \<Rightarrow> nat option \<Rightarrow> string option \<Rightarrow> 'x world \<Rightarrow> (exn + completed) \<times> 'x world"
    \<comment> \<open>\<open>subprocess.run(cmd, capture_output=True, text=True, timeout=t, cwd=d)\<close>\<close>
  glob :: "string \<Rightarrow> 'x world \<Rightarrow> exn + string list"
    \<comment> \<open>\<open>glob.glob(pattern, recursive=True)\<close>\<close>
  relpath :: "string \<Rightarrow> string \<Rightarrow> string"
    \<comment> \<open>\<open>os.path.relpath(path, start)\<close>\<close>
  chat_with_ollama :: "json list \<Rightarrow> string \<Rightarrow> 'x world \<Rightarrow> (exn + json) \<times> 'x world"
    \<comment> \<open>the request to the model server: the decoded response, or the exception raised\<close>
  dumps :: "json \<Rightarrow> string"
    \<comment> \<open>\<open>json.dumps(v)\<close>\<close>
  dumps_indent :: "json list \<Rightarrow> string"
    \<comment> \<open>what \<open>json.dump(vs, f, indent=2)\<close> writes\<close>
  check_ollama_installed :: "'x world \<Rightarrow> string option"
    \<comment> \<open>the probe of the server: an error message, or \<open>None\<close>\<close>
  check_model_available :: "string \<Rightarrow> 'x world \<Rightarrow> string option"
    \<comment> \<open>the probe for a model: an error message, or \<open>None\<close>\<close>
  ollama_model :: string
    \<comment> \<open>\<open>OLLAMA_MODEL\<close>\<close>
  model_map :: "string \<rightharpoonup> string"
    \<comment> \<open>\<open>MODEL_MAP\<close>\<close>

section \<open>Python values at run time\<close>

text \<open>\<open>str(v)\<close>, as an f-string formats a value, for the values that can be hashed.\<close>

definition py_str :: "'x env \<Rightarrow> json \<Rightarrow> string" where
  "py_str E v =
     (case v of
        JStr s \<Rightarrow> s
      | JNull \<Rightarrow> ''None''
      | JBool b \<Rightarrow> (if b then ''True'' else ''False'')
      | JInt i \<Rightarrow> str_int i
      | JFloat f \<Rightarrow> float_str E f
      | _ \<Rightarrow> [])"

text \<open>\<open>bool(v)\<close>.\<close>

definition truthy :: "'x env \<Rightarrow> json \<Rightarrow> bool" where
  "truthy E v =
     (case v of
        JNull \<Rightarrow> False
      | JBool b \<Rightarrow> b
      | JInt i \<Rightarrow> i \<noteq> 0
      | JFloat f \<Rightarrow> float_nonzero E f
      | JStr s \<Rightarrow> s \<noteq> []
      | JArr xs \<Rightarrow> xs \<noteq> []
      | JObj d \<Rightarrow> d \<noteq> [])"

text \<open>\<open>d[k]\<close> with a string \<open>k\<close>, on any value.\<close>

definition py_getitem :: "json \<Rightarrow> string \<Rightarrow> exn + json" where
  "py_getitem d k =
     (case d of
        JObj items \<Rightarrow> (case map_of items k of Some v \<Rightarrow> Inr v | None \<Rightarrow> Inl (KeyError k))
      | _ \<Rightarrow> Inl TypeError)"

text \<open>\<open>d.get(k, default)\<close> on any value; Python's \<open>None\<close> is \<^term>\<open>JNull\<close>.\<close>

definition py_get :: "json \<Rightarrow> string \<Rightarrow> json \<Rightarrow> exn + json" where
  "py_get d k dflt =
     (case d of
        JObj items \<Rightarrow> (case map_of items k of Some v \<Rightarrow> Inr v | None \<Rightarrow> Inr dflt)
      | _ \<Rightarrow> Inl AttributeError)"

text \<open>
  \<open>x == y\<close> on the values \<open>json.loads\<close> returns. \<open>bool\<close> is a subtype of \<open>int\<close>;
  two \<open>dict\<close>s are equal when they have the same keys with equal values, in any order.
\<close>

fun py_eq :: "'x env \<Rightarrow> json \<Rightarrow> json \<Rightarrow> bool"
  and py_eq_list :: "'x env \<Rightarrow> json list \<Rightarrow> json list \<Rightarrow> bool"
  and py_eq_items :: "'x env \<Rightarrow> (string \<times> json) list \<Rightarrow> (string \<times> json) list \<Rightarrow> bool" where
  "py_eq E JNull y = (y = JNull)"
| "py_eq E (JBool a) y =
     (case y of
        JBool b \<Rightarrow> a = b
      | JInt j \<Rightarrow> (if a then 1 else 0) = j
      | JFloat g \<Rightarrow> float_eq_int E g (if a then 1 else 0)
      | _ \<Rightarrow> False)"
| "py_eq E (JInt i) y =
     (case y of
        JBool b \<Rightarrow> i = (if b then 1 else 0)
      | JInt j \<Rightarrow> i = j
      | JFloat g \<Rightarrow> float_eq_int E g i
      | _ \<Rightarrow> False)"
| "py_eq E (JFloat f) y =
     (case y of
        JBool b \<Rightarrow> float_eq_int E f (if b then 1 else 0)
      | JInt j \<Rightarrow> float_eq_int E f j
      | JFloat g \<Rightarrow> float_eq E f g
      | _ \<Rightarrow> False)"
| "py_eq E (JStr s) y = (y = JStr s)"
| "py_eq E (JArr xs) y = (case y of JArr ys \<Rightarrow> py_eq_list E xs ys | _ \<Rightarrow> False)"
| "py_eq E (JObj d) y =
     (case y of JObj d' \<Rightarrow> length d = length d' \<and> py_eq_items E d d' | _ \<Rightarrow> False)"
| "py_eq_list E [] ys = (ys = [])"
| "py_eq_list E (x # xs) ys =
     (case ys of [] \<Rightarrow> False | y # ys' \<Rightarrow> py_eq E x y \<and> py_eq_list E xs ys')"
| "py_eq_items E [] d' = True"
| "py_eq_items E ((k, v) # d) d' =
     (case map_of d' k of None \<Rightarrow> False | Some v' \<Rightarrow> py_eq E v v' \<and> py_eq_items E d d')"

text \<open>\<open>x in xs\<close> for a list.\<close>

definition py_in :: "'x env \<Rightarrow> json \<Rightarrow> json list \<Rightarrow> bool" where
  "py_in E x xs = list_ex (\<lambda>y. py_eq E y x) xs"

section \<open>The tool-call extractor\<close>

text \<open>
  The three patterns of \<open>parse_tool_calls_from_text\<close>:
  \<^item> \<open>```tool\s*\n?(.*?)\n?```\<close> (with \<open>re.DOTALL\<close>),
  \<^item> \<open><tool_call>\s*(.*?)\s*</tool_call>\<close> (with \<open>re.DOTALL\<close>),
  \<^item> \<open>\{[^{}]*"name"\s*:\s*"[^"]+"\s*,[^{}]*"arguments"\s*:\s*\{[^{}]*\}[^{}]*\}\<close>.
\<close>

definition tool_block_pattern :: "rx list" where
  "tool_block_pattern =
     [Lit ''```tool'', Star WS, Opt nl, GroupOpen, LazyStar Dot, GroupClose, Opt nl, Lit ''```'']"

definition tag_pattern :: "rx list" where
  "tag_pattern =
     [Lit ''<tool_call>'', Star WS, GroupOpen, LazyStar Dot, GroupClose, Star WS, Lit ''</tool_call>'']"

definition json_pattern :: "rx list" where
  \<open>json_pattern =
     [Lit ''{'', Star NoBrace, Lit ''"name"'', Star WS, Lit '':'', Star WS,
      Lit ''"'', Plus NoQuote, Lit ''"'', Star WS, Lit '','', Star NoBrace,
      Lit ''"arguments"'', Star WS, Lit '':'', Star WS,
      Lit ''{'', Star NoBrace, Lit ''}'', Star NoBrace, Lit ''}'']\<close>

text \<open>
  The loops over the matches of the first two patterns: a match that is not JSON is
  skipped, every other one is appended.
\<close>

fun append_parsed :: "json list \<Rightarrow> string list \<Rightarrow> json list" where
  "append_parsed tool_calls [] = tool_calls"
| "append_parsed tool_calls (match # matches) =
     (case json_loads (strip match) of
        None \<Rightarrow> append_parsed tool_calls matches
      | Some data \<Rightarrow> append_parsed (tool_calls @ [data]) matches)"

text \<open>
  The loop over the matches of the third pattern. A match starts with a brace, so what
  \<open>json.loads\<close> returns for it is a \<open>dict\<close>; it is appended when it has both keys and
  no value of \<open>tool_calls\<close> equals it.
\<close>

fun append_new :: "'x env \<Rightarrow> json list \<Rightarrow> string list \<Rightarrow> json list" where
  "append_new E tool_calls [] = tool_calls"
| "append_new E tool_calls (match # matches) =
     (case json_loads match of
        Some (JObj d) \<Rightarrow>
          if map_of d ''name'' \<noteq> None \<and> map_of d ''arguments'' \<noteq> None
             \<and> \<not> py_in E (JObj d) tool_calls
          then append_new E (tool_calls @ [JObj d]) matches
          else append_new E tool_calls matches
      | _ \<Rightarrow> append_new E tool_calls matches)"

definition parse_tool_calls_from_text :: "'x env \<Rightarrow> string \<Rightarrow> json list" where
  "parse_tool_calls_from_text E text =
     append_new E
       (append_parsed
          (append_parsed [] (findall True tool_block_pattern text))
          (findall True tag_pattern text))
       (findall False json_pattern text)"

section \<open>The tool executors\<close>

text \<open>
  A tool argument is whatever value the model's JSON held. An operation on strings
  raises \<open>TypeError\<close> on any other value.
\<close>

definition as_str :: "json \<Rightarrow> exn + string" where
  "as_str v = (case v of JStr s \<Rightarrow> Inr s | _ \<Rightarrow> Inl TypeError)"

text \<open>
  \<open>if not os.path.isabs(path): path = os.path.join(get_project_root(), path)\<close>.
\<close>

definition resolve :: "'x env \<Rightarrow> json \<Rightarrow> exn + string" where
  "resolve E path =
     (case as_str path of
        Inl e \<Rightarrow> Inl e
      | Inr p \<Rightarrow> Inr (if isabs p then p else path_join (project_root E) p))"

definition tool_read_file :: "'x env \<Rightarrow> json \<Rightarrow> 'x world \<Rightarrow> string" where
  "tool_read_file E path w =
     (case resolve E path of
        Inl e \<Rightarrow> ''Error reading file: '' @ exn_str E e
      | Inr p \<Rightarrow>
          (case read_text w p of
             Inr content \<Rightarrow> ''File contents of '' @ p @ '':'' @ [nl] @ ''```'' @ [nl] @ content @ [nl] @ ''```''
           | Inl FileNotFoundError \<Rightarrow> ''Error: File not found: '' @ p
           | Inl e \<Rightarrow> ''Error reading file: '' @ exn_str E e))"

definition tool_write_file :: "'x env \<Rightarrow> json \<Rightarrow> json \<Rightarrow> 'x world \<Rightarrow> string \<times> 'x world" where
  "tool_write_file E path content w =
     (case resolve E path of
        Inl e \<Rightarrow> (''Error writing file: '' @ exn_str E e, w)
      | Inr p \<Rightarrow>
          (case makedirs w (dirname p) of
             Some e \<Rightarrow> (''Error writing file: '' @ exn_str E e, w)
           | None \<Rightarrow>
               (case write_text w p content of
                  (Some e, w') \<Rightarrow> (''Error writing file: '' @ exn_str E e, w')
                | (None, w') \<Rightarrow> (''Successfully wrote to '' @ p, w'))))"

definition tool_edit_file :: "'x env \<Rightarrow> json \<Rightarrow> json \<Rightarrow> json \<Rightarrow> 'x world \<Rightarrow> string \<times> 'x world" where
  "tool_edit_file E path old_string new_string w =
     (case resolve E path of
        Inl e \<Rightarrow> (''Error editing file: '' @ exn_str E e, w)
      | Inr p \<Rightarrow>
          (case read_text w p of
             Inl FileNotFoundError \<Rightarrow> (''Error: File not found: '' @ p, w)
           | Inl e \<Rightarrow> (''Error editing file: '' @ exn_str E e, w)
           | Inr content \<Rightarrow>
               (case as_str old_string of
                  Inl e \<Rightarrow> (''Error editing file: '' @ exn_str E e, w)
                | Inr old \<Rightarrow>
                    if \<not> contains old content then (''Error: String not found in '' @ p, w)
                    else if count content old > 1 then
                      (''Error: String appears '' @ str_nat (count content old) @ '' times in '' @ p
                         @ ''. Provide more context for unique match.'', w)
                    else
                      (case as_str new_string of
                         Inl e \<Rightarrow> (''Error editing file: '' @ exn_str E e, w)
                       | Inr new \<Rightarrow>
                           (case write_text w p (JStr (replace content old new)) of
                              (Some FileNotFoundError, w') \<Rightarrow> (''Error: File not found: '' @ p, w')
                            | (Some e, w') \<Rightarrow> (''Error editing file: '' @ exn_str E e, w')
                            | (None, w') \<Rightarrow> (''Successfully edited '' @ p, w'))))))"

text \<open>
  The deny-list of \<open>tool_bash\<close>:
  \<open>rm\s+-rf\s+/\<close>, \<open>rm\s+-rf\s+\*\<close>, \<open>>\s*/dev/sd\<close>, \<open>mkfs\.\<close> and \<open>dd\s+if=\<close>.
\<close>

definition dangerous_patterns :: "rx list list" where
  "dangerous_patterns =
     [[Lit ''rm'', Plus WS, Lit ''-rf'', Plus WS, Lit ''/''],
      [Lit ''rm'', Plus WS, Lit ''-rf'', Plus WS, Lit ''*''],
      [Lit ''>'', Star WS, Lit ''/dev/sd''],
      [Lit ''mkfs.''],
      [Lit ''dd'', Plus WS, Lit ''if='']]"

definition blocked :: "string \<Rightarrow> bool" where
  "blocked command = list_ex (\<lambda>pattern. re_search pattern command \<noteq> None) dangerous_patterns"

text \<open>
  The result of \<open>tool_bash\<close>: what it returns or raises, the machine afterwards, and the
  command lines it handed to \<open>subprocess.run\<close>.
\<close>

record 'x bash_result =
  outcome :: "exn + string"
  machine :: "'x world"
  spawned :: "cmdline list"

definition bash_output :: "completed \<Rightarrow> string" where
  "bash_output r =
     (let output =
            (if stdout r \<noteq> [] then ''stdout:'' @ [nl] @ stdout r @ [nl] else []) @
            (if stderr r \<noteq> [] then ''stderr:'' @ [nl] @ stderr r @ [nl] else []) @
            (if returncode r \<noteq> 0 then ''Exit code: '' @ str_int (returncode r) else [])
      in if output \<noteq> [] then output else ''Command completed successfully (no output)'')"

definition tool_bash :: "'x env \<Rightarrow> json \<Rightarrow> 'x world \<Rightarrow> 'x bash_result" where
  "tool_bash E command w =
     (case as_str command of
        Inl e \<Rightarrow> \<lparr>outcome = Inl e, machine = w, spawned = []\<rparr>
      | Inr cmd \<Rightarrow>
          if blocked cmd
          then \<lparr>outcome = Inr (''Error: Command blocked for safety: '' @ cmd), machine = w, spawned = []\<rparr>
          else
            (case subprocess_run E (ShellCmd cmd) (Some 120) (Some (project_root E)) w of
               (Inr r, w') \<Rightarrow>
                 \<lparr>outcome = Inr (bash_output r), machine = w', spawned = [ShellCmd cmd]\<rparr>
             | (Inl TimeoutExpired, w') \<Rightarrow>
                 \<lparr>outcome = Inr ''Error: Command timed out after 120 seconds'', machine = w',
                  spawned = [ShellCmd cmd]\<rparr>
             | (Inl e, w') \<Rightarrow>
                 \<lparr>outcome = Inr (''Error executing command: '' @ exn_str E e), machine = w',
                  spawned = [ShellCmd cmd]\<rparr>))"

text \<open>\<open>search_path = path or get_project_root()\<close>, made absolute.\<close>

definition search_path :: "'x env \<Rightarrow> json \<Rightarrow> exn + string" where
  "search_path E path = resolve E (if truthy E path then path else JStr (project_root E))"

definition tool_glob_search :: "'x env \<Rightarrow> json \<Rightarrow> json \<Rightarrow> 'x world \<Rightarrow> string" where
  "tool_glob_search E pattern path w =
     (case search_path E path of
        Inl e \<Rightarrow> ''Error in glob search: '' @ exn_str E e
      | Inr sp \<Rightarrow>
          (case as_str pattern of
             Inl e \<Rightarrow> ''Error in glob search: '' @ exn_str E e
           | Inr pat \<Rightarrow>
               (case glob E (path_join sp pat) w of
                  Inl e \<Rightarrow> ''Error in glob search: '' @ exn_str E e
                | Inr matches \<Rightarrow>
                    (let relative_matches = map (\<lambda>m. relpath E m (project_root E)) matches
                     in if relative_matches = [] then ''No files found matching pattern: '' @ pat
                        else ''Found '' @ str_nat (length relative_matches) @ '' files:'' @ [nl]
                               @ join [nl] (take 50 relative_matches)))))"

definition tool_grep_search :: "'x env \<Rightarrow> json \<Rightarrow> json \<Rightarrow> json \<Rightarrow> 'x world \<Rightarrow> string \<times> 'x world" where
  "tool_grep_search E pattern path file_pattern w =
     (case search_path E path of
        Inl e \<Rightarrow> (''Error in grep search: '' @ exn_str E e, w)
      | Inr sp \<Rightarrow>
          (case as_str (if truthy E file_pattern then file_pattern else JStr ''*'') of
             Inl e \<Rightarrow> (''Error in grep search: '' @ exn_str E e, w)
           | Inr fp \<Rightarrow>
               (case as_str pattern of
                  Inl e \<Rightarrow> (''Error in grep search: '' @ exn_str E e, w)
                | Inr pat \<Rightarrow>
                    (case subprocess_run E (Argv [''grep'', ''-rn'', ''--include='' @ fp, pat, sp])
                            (Some 60) None w of
                       (Inr r, w') \<Rightarrow>
                         (if stdout r \<noteq> [] then
                            (let lines = split_chr nl (strip (stdout r))
                             in ''Found '' @ str_nat (length lines) @ '' matches:'' @ [nl]
                                  @ join [nl] (take 30 lines))
                          else ''No matches found for pattern: '' @ pat, w')
                     | (Inl TimeoutExpired, w') \<Rightarrow> (''Error: Search timed out'', w')
                     | (Inl e, w') \<Rightarrow> (''Error in grep search: '' @ exn_str E e, w')))))"

section \<open>The tool registry\<close>

text \<open>
  The entries of the dictionary \<open>tool_functions\<close> of \<open>execute_tool\<close>. Each is a lambda
  that reads its arguments from \<open>args\<close>, from left to right, and calls the executor:
  what it returns (\<open>Inr\<close>) or raises (\<open>Inl\<close>), and the machine afterwards.
\<close>

type_synonym 'x tool_function = "json \<Rightarrow> 'x world \<Rightarrow> (exn + string) \<times> 'x world"

definition call_read_file :: "'x env \<Rightarrow> 'x tool_function" where
  "call_read_file E args w =
     (case py_getitem args ''path'' of
        Inl e \<Rightarrow> (Inl e, w)
      | Inr path \<Rightarrow> (Inr (tool_read_file E path w), w))"

definition call_write_file :: "'x env \<Rightarrow> 'x tool_function" where
  "call_write_file E args w =
     (case py_getitem args ''path'' of
        Inl e \<Rightarrow> (Inl e, w)
      | Inr path \<Rightarrow>
          (case py_getitem args ''content'' of
             Inl e \<Rightarrow> (Inl e, w)
           | Inr content \<Rightarrow>
               (case tool_write_file E path content w of (t, w') \<Rightarrow> (Inr t, w'))))"

definition call_edit_file :: "'x env \<Rightarrow> 'x tool_function" where
  "call_edit_file E args w =
     (case py_getitem args ''path'' of
        Inl e \<Rightarrow> (Inl e, w)
      | Inr path \<Rightarrow>
          (case py_getitem args ''old_string'' of
             Inl e \<Rightarrow> (Inl e, w)
           | Inr old_string \<Rightarrow>
               (case py_getitem args ''new_string'' of
                  Inl e \<Rightarrow> (Inl e, w)
                | Inr new_string \<Rightarrow>
                    (case tool_edit_file E path old_string new_string w of
                       (t, w') \<Rightarrow> (Inr t, w')))))"

definition call_bash :: "'x env \<Rightarrow> 'x tool_function" where
  "call_bash E args w =
     (case py_getitem args ''command'' of
        Inl e \<Rightarrow> (Inl e, w)
      | Inr command \<Rightarrow> (outcome (tool_bash E command w), machine (tool_bash E command w)))"

definition call_glob_search :: "'x env \<Rightarrow> 'x tool_function" where
  "call_glob_search E args w =
     (case py_getitem args ''pattern'' of
        Inl e \<Rightarrow> (Inl e, w)
      | Inr pattern \<Rightarrow>
          (case py_get args ''path'' JNull of
             Inl e \<Rightarrow> (Inl e, w)
           | Inr path \<Rightarrow> (Inr (tool_glob_search E pattern path w), w)))"

definition call_grep_search :: "'x env \<Rightarrow> 'x tool_function" where
  "call_grep_search E args w =
     (case py_getitem args ''pattern'' of
        Inl e \<Rightarrow> (Inl e, w)
      | Inr pattern \<Rightarrow>
          (case py_get args ''path'' JNull of
             Inl e \<Rightarrow> (Inl e, w)
           | Inr path \<Rightarrow>
               (case py_get args ''file_pattern'' JNull of
                  Inl e \<Rightarrow> (Inl e, w)
                | Inr file_pattern \<Rightarrow>
                    (case tool_grep_search E pattern path file_pattern w of
                       (t, w') \<Rightarrow> (Inr t, w')))))"

definition tool_functions :: "'x env \<Rightarrow> (string \<times> 'x tool_function) list" where
  "tool_functions E =
     [(''read_file'', call_read_file E),
      (''write_file'', call_write_file E),
      (''edit_file'', call_edit_file E),
      (''bash'', call_bash E),
      (''glob_search'', call_glob_search E),
      (''grep_search'', call_grep_search E)]"

text \<open>The registered names: the keys of \<open>tool_functions\<close>.\<close>

definition tool_names :: "string list" where
  "tool_names = [''read_file'', ''write_file'', ''edit_file'', ''bash'', ''glob_search'', ''grep_search'']"

text \<open>
  \<open>execute_tool(name, arguments)\<close>: what it returns (\<open>Inr\<close>) or raises (\<open>Inl\<close>), and
  the machine afterwards. The test \<open>name not in tool_functions\<close> hashes \<open>name\<close>, which
  a \<open>list\<close> or a \<open>dict\<close> does not allow; a value that is not a \<open>str\<close> is no key of the
  dictionary.
\<close>

definition execute_tool :: "'x env \<Rightarrow> json \<Rightarrow> json \<Rightarrow> 'x world \<Rightarrow> (exn + string) \<times> 'x world" where
  "execute_tool E name arguments w =
     (case name of
        JArr _ \<Rightarrow> (Inl TypeError, w)
      | JObj _ \<Rightarrow> (Inl TypeError, w)
      | _ \<Rightarrow>
          (case (case name of JStr n \<Rightarrow> map_of (tool_functions E) n | _ \<Rightarrow> None) of
             None \<Rightarrow> (Inr (''Error: Unknown tool '' @ [sq] @ py_str E name @ [sq]), w)
           | Some f \<Rightarrow> f arguments w))"

section \<open>The conversation loop\<close>

text \<open>The system prompt of \<open>run_agent_loop\<close>, line by line.\<close>

definition system_prompt :: string where
  \<open>system_prompt = join [nl]
     [''You are a helpful AI coding assistant. You have access to tools to help you complete tasks.'',
      '''',
      ''## Available Tools'',
      '''',
      ''1. **read_file** - Read file contents'',
      ''   Arguments: {"path": "file/path"}'',
      '''',
      ''2. **write_file** - Write content to a file'',
      ''   Arguments: {"path": "file/path", "content": "file content"}'',
      '''',
      ''3. **edit_file** - Replace a specific string in a file'',
      ''   Arguments: {"path": "file/path", "old_string": "text to find", "new_string": "replacement text"}'',
      '''',
      ''4. **bash** - Execute shell commands'',
      ''   Arguments: {"command": "shell command"}'',
      '''',
      ''5. **glob_search** - Find files matching patterns'',
      ''   Arguments: {"pattern": "**/*.py", "path": "optional/directory"}'',
      '''',
      ''6. **grep_search** - Search for patterns in files'',
      ''   Arguments: {"pattern": "regex pattern", "path": "optional/directory", "file_pattern": "*.py"}'',
      '''',
      ''## How to Call Tools'',
      '''',
      ''To use a tool, include a tool call block in your response:'',
      '''',
      ''```tool'',
      ''{"name": "tool_name", "arguments": {"arg1": "value1"}}'',
      ''```'',
      '''',
      ''Example:'',
      ''```tool'',
      ''{"name": "read_file", "arguments": {"path": "README.md"}}'',
      ''```'',
      '''',
      ''## Important Rules'',
      '''',
      ''1. Call ONE tool at a time and wait for the result before calling another'',
      ''2. After receiving tool results, analyze them and decide next steps'',
      ''3. When your task is complete, provide a clear final answer WITHOUT any tool blocks'',
      ''4. Think step by step about what you need to do'',
      '''',
      ''Begin by analyzing the task and determining what information you need.'']\<close>

text \<open>
  The inner loop of \<open>run_agent_loop\<close> over the tool calls of one turn: the texts for
  the model, the transcript and the machine after the calls dispatched so far. It stops
  at the first call that raises.
\<close>

fun dispatch :: "'x env \<Rightarrow> json list \<Rightarrow> string list \<Rightarrow> json list \<Rightarrow> 'x world
    \<Rightarrow> (exn + string list \<times> json list) \<times> 'x world" where
  "dispatch E [] tool_results all_messages w = (Inr (tool_results, all_messages), w)"
| "dispatch E (tool_call # tool_calls) tool_results all_messages w =
     (case py_get tool_call ''name'' (JStr []) of
        Inl e \<Rightarrow> (Inl e, w)
      | Inr tool_name \<Rightarrow>
          (case py_get tool_call ''arguments'' (JObj []) of
             Inl e \<Rightarrow> (Inl e, w)
           | Inr tool_args \<Rightarrow>
               (case execute_tool E tool_name tool_args w of
                  (Inl e, w') \<Rightarrow> (Inl e, w')
                | (Inr tool_result, w') \<Rightarrow>
                    dispatch E tool_calls
                      (tool_results @ [''**'' @ py_str E tool_name @ ''** result:'' @ [nl] @ tool_result])
                      (all_messages @
                         [JObj [(''role'', JStr ''tool''), (''name'', tool_name),
                                (''content'', JStr tool_result)]])
                      w')))"

text \<open>
  How a run ended: the three ways \<open>run_agent_loop\<close> returns, and an exception that
  leaves it.
\<close>

datatype ending = Done | Truncated | TransportFailure | Raised exn

text \<open>
  A run: \<open>final_response\<close> and \<open>all_messages\<close> are the pair that \<open>run_agent_loop\<close>
  returns (when it returns). The other fields record what the run did: how it ended,
  the local list \<open>messages\<close> sent to the model, the number of calls of
  \<open>chat_with_ollama\<close>, and the machine afterwards.
\<close>

record 'x run =
  ending :: ending
  final_response :: string
  all_messages :: "json list"
  messages :: "json list"
  round_trips :: nat
  world_after :: "'x world"

definition continue_message :: "string list \<Rightarrow> json" where
  "continue_message tool_results =
     JObj [(''role'', JStr ''user''),
           (''content'', JStr (''Tool results:'' @ [nl, nl] @ join [nl, nl] tool_results @ [nl, nl]
              @ ''Continue with your task. If complete, provide your final answer without tool blocks.''))]"

text \<open>
  One iteration of the \<open>for\<close> loop of \<open>run_agent_loop\<close>; the record holds the local
  variables on entry. \<open>Stop\<close> leaves the loop (by \<open>return\<close>, \<open>break\<close> or an
  exception), \<open>Continue\<close> goes on to the next iteration.
\<close>

datatype 'x step = Stop "'x run" | Continue "'x run"

definition turn :: "'x env \<Rightarrow> string \<Rightarrow> 'x run \<Rightarrow> 'x step" where
  "turn E model st =
     (case chat_with_ollama E (messages st) model (world_after st) of
        (Inl e, w) \<Rightarrow>
          Stop (st\<lparr>ending := TransportFailure,
                   final_response := ''Error in agent loop: '' @ exn_str E e,
                   round_trips := Suc (round_trips st), world_after := w\<rparr>)
      | (Inr response, w) \<Rightarrow>
          (let st1 = st\<lparr>round_trips := Suc (round_trips st), world_after := w\<rparr> in
           case py_get response ''message'' (JObj []) of
             Inl e \<Rightarrow> Stop (st1\<lparr>ending := Raised e\<rparr>)
           | Inr message \<Rightarrow>
               (case py_get message ''content'' (JStr []) of
                  Inl e \<Rightarrow> Stop (st1\<lparr>ending := Raised e\<rparr>)
                | Inr content \<Rightarrow>
                    (let st2 = st1\<lparr>all_messages := all_messages st1 @ [message]\<rparr> in
                     case content of
                       JStr text \<Rightarrow>
                         (let tool_calls = parse_tool_calls_from_text E text in
                          if tool_calls = [] then Stop (st2\<lparr>ending := Done, final_response := text\<rparr>)
                          else
                            (case dispatch E tool_calls [] (all_messages st2) w of
                               (Inl e, w') \<Rightarrow>
                                 Stop (st2\<lparr>ending := Raised e, world_after := w',
                                     messages := messages st2 @
                                       [JObj [(''role'', JStr ''assistant''), (''content'', content)]]\<rparr>)
                             | (Inr (tool_results, all_messages'), w') \<Rightarrow>
                                 Continue
                                   (st2\<lparr>all_messages := all_messages', world_after := w',
                                        messages := messages st2 @
                                          [JObj [(''role'', JStr ''assistant''), (''content'', content)],
                                           continue_message tool_results]\<rparr>)))
                     | _ \<Rightarrow> Stop (st2\<lparr>ending := Raised TypeError\<rparr>)))))"

text \<open>
  The \<open>for\<close> loop, by the number of iterations that are left. When none is left the
  function returns \<open>final_response\<close>, still empty, and \<open>all_messages\<close>.
\<close>

fun agent_loop :: "'x env \<Rightarrow> string \<Rightarrow> nat \<Rightarrow> 'x run \<Rightarrow> 'x run" where
  "agent_loop E model 0 st = st\<lparr>ending := Truncated\<rparr>"
| "agent_loop E model (Suc n) st =
     (case turn E model st of
        Stop r \<Rightarrow> r
      | Continue st' \<Rightarrow> agent_loop E model n st')"

text \<open>\<open>run_agent_loop(prompt, model, max_iterations)\<close>; \<open>range\<close> of a negative number is empty.\<close>

definition run_agent_loop :: "'x env \<Rightarrow> string \<Rightarrow> string \<Rightarrow> int \<Rightarrow> 'x world \<Rightarrow> 'x run" where
  "run_agent_loop E prompt model max_iterations w =
     agent_loop E model (nat max_iterations)
       \<lparr>ending = Truncated, final_response = [], all_messages = [],
        messages = [JObj [(''role'', JStr ''system''), (''content'', JStr system_prompt)],
                    JObj [(''role'', JStr ''user''), (''content'', JStr prompt)]],
        round_trips = 0, world_after = w\<rparr>"

section \<open>The transcript recorder and the entry point\<close>

text \<open>
  \<open>save_prompt\<close>: a prompt that starts with a slash command (\<open>^(/\w+)\<close>) is written
  to a file named after the command. The result is the exception raised, if any.
\<close>

definition save_prompt :: "'x env \<Rightarrow> string \<Rightarrow> string \<Rightarrow> string \<Rightarrow> 'x world \<Rightarrow> exn option \<times> 'x world" where
  "save_prompt E prompt adw_id agent_name w =
     (case match_here [GroupOpen, Lit ''/'', Plus Word, GroupClose] prompt of
        None \<Rightarrow> (None, w)
      | Some (rest, mk, slash_command) \<Rightarrow>
          (let command_name = drop 1 slash_command;
               prompt_dir =
                 path_join (path_join (path_join (path_join (project_root E) ''agents'') adw_id)
                   agent_name) ''prompts''
           in case makedirs w prompt_dir of
                Some e \<Rightarrow> (Some e, w)
              | None \<Rightarrow> write_text w (path_join prompt_dir (command_name @ ''.txt'')) (JStr prompt)))"

text \<open>
  \<open>save_output\<close>: one line of JSON per message to \<open>output_file\<close>, then the list as
  one JSON document to the path \<open>output_file.replace(".jsonl", ".json")\<close>.
\<close>

definition save_output :: "'x env \<Rightarrow> json list \<Rightarrow> string \<Rightarrow> 'x world \<Rightarrow> exn option \<times> 'x world" where
  "save_output E msgs output_file w =
     (case (if dirname output_file \<noteq> [] then makedirs w (dirname output_file) else None) of
        Some e \<Rightarrow> (Some e, w)
      | None \<Rightarrow>
          (case write_text w output_file (JStr (concat (map (\<lambda>msg. dumps E msg @ [nl]) msgs))) of
             (Some e, w1) \<Rightarrow> (Some e, w1)
           | (None, w1) \<Rightarrow>
               write_text w1 (replace output_file ''.jsonl'' ''.json'') (JStr (dumps_indent E msgs))))"

text \<open>The fields of \<open>AgentPromptRequest\<close> that \<open>prompt_local_agent\<close> reads.\<close>

record AgentPromptRequest =
  rq_prompt :: string
  rq_adw_id :: string
  rq_agent_name :: string
  rq_model :: string
  rq_output_file :: string

record AgentPromptResponse =
  rs_output :: string
  rs_success :: bool
  rs_session_id :: "string option"

text \<open>\<open>if error_msg:\<close> for an optional string: \<open>None\<close> and the empty string are false.\<close>

definition if_msg :: "string option \<Rightarrow> string option" where
  "if_msg m = (case m of Some s \<Rightarrow> if s = [] then None else Some s | None \<Rightarrow> None)"

text \<open>
  \<open>prompt_local_agent\<close>: the response it returns (\<open>Inr\<close>) or the exception that leaves
  it (\<open>Inl\<close>, from \<open>save_prompt\<close>, which is called outside the \<open>try\<close>), and the machine
  afterwards.
\<close>

definition prompt_local_agent :: "'x env \<Rightarrow> AgentPromptRequest \<Rightarrow> 'x world
    \<Rightarrow> (exn + AgentPromptResponse) \<times> 'x world" where
  "prompt_local_agent E request w =
     (case if_msg (check_ollama_installed E w) of
        Some error_msg \<Rightarrow>
          (Inr \<lparr>rs_output = error_msg, rs_success = False, rs_session_id = None\<rparr>, w)
      | None \<Rightarrow>
          (let model = (case model_map E (rq_model request) of Some m \<Rightarrow> m | None \<Rightarrow> ollama_model E);
               pulled =
                 (case if_msg (check_model_available E model w) of
                    None \<Rightarrow> (None, w)
                  | Some error_msg \<Rightarrow>
                      (case subprocess_run E (Argv [''ollama'', ''pull'', model]) None None w of
                         (Inl e, w') \<Rightarrow> (Some e, w')
                       | (Inr r, w') \<Rightarrow>
                           (if returncode r \<noteq> 0 then Some (CalledProcessError (returncode r)) else None, w')))
           in case pulled of
                (Some e, w1) \<Rightarrow>
                  (Inr \<lparr>rs_output = ''Model not available and pull failed: '' @ exn_str E e,
                        rs_success = False, rs_session_id = None\<rparr>, w1)
              | (None, w1) \<Rightarrow>
                  (case save_prompt E (rq_prompt request) (rq_adw_id request) (rq_agent_name request) w1 of
                     (Some e, w2) \<Rightarrow> (Inl e, w2)
                   | (None, w2) \<Rightarrow>
                       (let r = run_agent_loop E (rq_prompt request) model 20 w2 in
                        case ending r of
                          Raised e \<Rightarrow>
                            (Inr \<lparr>rs_output = ''Error executing local agent: '' @ exn_str E e,
                                  rs_success = False, rs_session_id = None\<rparr>, world_after r)
                        | _ \<Rightarrow>
                            (case save_output E (all_messages r) (rq_output_file request) (world_after r) of
                               (Some e, w3) \<Rightarrow>
                                 (Inr \<lparr>rs_output = ''Error executing local agent: '' @ exn_str E e,
                                       rs_success = False, rs_session_id = None\<rparr>, w3)
                             | (None, w3) \<Rightarrow>
                                 (Inr \<lparr>rs_output = final_response r, rs_success = True,
                                       rs_session_id = Some (rq_adw_id request)\<rparr>, w3))))))"

section \<open>Properties of tool results and transcripts\<close>

text \<open>
  What every text of a tool executor has in common: it is not empty and does not start
  like the message of a failed run, \<open>Error in agent loop\<close>.
\<close>

definition tool_text :: "string \<Rightarrow> bool" where
  "tool_text t = (t \<noteq> [] \<and> \<not> startswith t ''Error in a'')"

text \<open>A message as \<open>run_agent_loop\<close> appends it for a tool result.\<close>

definition tool_message :: "json \<Rightarrow> bool" where
  "tool_message m =
     (\<exists>name t. m = JObj [(''role'', JStr ''tool''), (''name'', name), (''content'', JStr t)] \<and> tool_text t)"

text \<open>A transcript at the start of an iteration: empty, or ending with a tool message.\<close>

definition quiet :: "json list \<Rightarrow> bool" where
  "quiet msgs = (msgs = [] \<or> tool_message (last msgs))"

section \<open>Well-formed tool invocations\<close>

text \<open>
  The invocations that the extractor is proved to recover, written as \<open>json.dumps\<close>
  writes them (and as the system prompt shows them): an object with the key \<open>name\<close>
  first and the key \<open>arguments\<close> second, the arguments a flat object of strings. The
  characters of the name, of the keys and of the values are \<open>plain\<close>: no control
  character, no quote or backslash (so that the JSON string is the text itself), no
  brace, no backquote and no \<open><\<close> (so that no pattern finds a delimiter inside).
\<close>

definition plain :: "char \<Rightarrow> bool" where
  "plain c = (32 \<le> (of_char c :: nat)
     \<and> c \<noteq> dq \<and> c \<noteq> bslash \<and> c \<noteq> CHR ''{'' \<and> c \<noteq> CHR ''}'' \<and> c \<noteq> CHR 0x60 \<and> c \<noteq> CHR ''<'')"

definition member :: "string \<times> string \<Rightarrow> string" where
  "member kv = [dq] @ fst kv @ [dq] @ '': '' @ [dq] @ snd kv @ [dq]"

definition members :: "(string \<times> string) list \<Rightarrow> string" where
  "members args = join '', '' (map member args)"

definition invocation :: "string \<Rightarrow> (string \<times> string) list \<Rightarrow> string" where
  \<open>invocation name args = ''{"name": "'' @ name @ ''", "arguments": {'' @ members args @ ''}}''\<close>

text \<open>The value that \<open>json.loads\<close> is to return for an invocation.\<close>

definition arg_values :: "(string \<times> string) list \<Rightarrow> (string \<times> json) list" where
  "arg_values args = map (\<lambda>kv. (fst kv, JStr (snd kv))) args"

definition tool_call :: "string \<Rightarrow> (string \<times> string) list \<Rightarrow> json" where
  "tool_call name args = JObj [(''name'', JStr name), (''arguments'', JObj (arg_values args))]"

definition well_formed :: "string \<Rightarrow> (string \<times> string) list \<Rightarrow> bool" where
  "well_formed name args =
     (name \<noteq> [] \<and> list_all plain name
      \<and> list_all (\<lambda>kv. list_all plain (fst kv) \<and> list_all plain (snd kv)) args
      \<and> distinct (map fst args))"

text \<open>
  Text around an invocation that starts no match of any pattern: it has no backquote,
  no \<open><\<close> and no opening brace.
\<close>

definition prose :: "string \<Rightarrow> bool" where
  "prose s = list_all (\<lambda>c. c \<noteq> CHR 0x60 \<and> c \<noteq> CHR ''<'' \<and> c \<noteq> CHR ''{'') s"

text \<open>The three conventions around an invocation.\<close>

definition fenced :: "string \<Rightarrow> string" where
  "fenced j = ''```tool'' @ [nl] @ j @ [nl] @ ''```''"

definition tagged :: "string \<Rightarrow> string" where
  "tagged j = ''<tool_call>'' @ j @ ''</tool_call>''"

section \<open>A scripted environment for the examples\<close>

text \<open>
  A machine with one file, and an environment whose model server answers by a script
  (a function of the messages it is sent). Processes finish at once with the status
  \<open>rc\<close>; \<open>glob\<close> finds the paths \<open>found\<close>.
\<close>

definition demo_world :: "unit world" where
  "demo_world =
     \<lparr>files = [''/repo/notes.txt'' \<mapsto> ''alpha beta alpha''],
      unreadable = Map.empty, unwritable = Map.empty, uncreatable = Map.empty, beyond = ()\<rparr>"

definition demo_env :: "(json list \<Rightarrow> exn + json) \<Rightarrow> int \<Rightarrow> string list \<Rightarrow> unit env" where
  "demo_env script rc found =
     \<lparr>project_root = ''/repo'',
      exn_str = (\<lambda>e. case e of OtherError m \<Rightarrow> m | KeyError k \<Rightarrow> [sq] @ k @ [sq] | _ \<Rightarrow> ''error''),
      float_eq = (\<lambda>f g. f = g),
      float_eq_int = (\<lambda>f i. False),
      float_nonzero = (\<lambda>f. True),
      float_str = (\<lambda>f. f),
      subprocess_run = (\<lambda>c t d w. (Inr \<lparr>stdout = ''out'', stderr = [], returncode = rc\<rparr>, w)),
      glob = (\<lambda>p w. Inr found),
      relpath = (\<lambda>m r. drop (length r + 1) m),
      chat_with_ollama = (\<lambda>msgs model w. (script msgs, w)),
      dumps = (\<lambda>v. case v of JObj ((k, JStr r) # _) \<Rightarrow> r | _ \<Rightarrow> ''?''),
      dumps_indent = (\<lambda>vs. str_nat (length vs)),
      check_ollama_installed = (\<lambda>w. None),
      check_model_available = (\<lambda>m w. None),
      ollama_model = ''deepseek-r1:8b'',
      model_map = [''opus'' \<mapsto> ''deepseek-r1:14b'', ''sonnet'' \<mapsto> ''deepseek-r1:8b'']\<rparr>"

text \<open>A server that is down, one that answers in plain text, and one that always asks for a tool.\<close>

definition server_down :: "json list \<Rightarrow> exn + json" where
  "server_down msgs = Inl (OtherError ''connection refused'')"

definition assistant_says :: "string \<Rightarrow> json" where
  "assistant_says content =
     JObj [(''message'', JObj [(''role'', JStr ''assistant''), (''content'', JStr content)])]"

definition plain_answer :: "json list \<Rightarrow> exn + json" where
  "plain_answer msgs = Inr (assistant_says ''The answer is 42.'')"

definition read_notes_block :: string where
  \<open>read_notes_block =
     ''```tool'' @ [nl] @ ''{"name": "read_file", "arguments": {"path": "notes.txt"}}'' @ [nl] @ ''```''\<close>

definition always_tool :: "json list \<Rightarrow> exn + json" where
  "always_tool msgs = Inr (assistant_says read_notes_block)"

text \<open>Sixty Python files under the project root, as \<open>glob\<close> would list them.\<close>

definition sixty :: "string list" where
  "sixty = map (\<lambda>i. ''/repo/src/m'' @ str_nat i @ ''.py'') [0..<60]"

text \<open>A server that asks for \<open>read_file\<close> without the argument \<open>path\<close>.\<close>

definition forgetful :: "json list \<Rightarrow> exn + json" where
  \<open>forgetful msgs =
     Inr (assistant_says (''```tool'' @ [nl] @ ''{"name": "read_file", "arguments": {}}'' @ [nl] @ ''```''))\<close>

text \<open>A request as \<open>execute_template\<close> builds it, and one with another output path.\<close>

definition demo_request :: AgentPromptRequest where
  "demo_request =
     \<lparr>rq_prompt = ''What is 2 + 2?'', rq_adw_id = ''a1b2'', rq_agent_name = ''ops'',
      rq_model = ''sonnet'', rq_output_file = ''/repo/agents/a1b2/ops/raw_output.jsonl''\<rparr>"

definition log_request :: AgentPromptRequest where
  "log_request = demo_request\<lparr>rq_output_file := ''/repo/agents/a1b2/ops/run.log''\<rparr>"

text \<open>
  The call that \<open>read_notes_block\<close> asks for, what \<open>read_file\<close> answers to it on
  the machine \<open>demo_world\<close>, and the same request as a bare object with the key
  \<open>arguments\<close> first.
\<close>

definition read_notes :: json where
  "read_notes = tool_call ''read_file'' [(''path'', ''notes.txt'')]"


definition arguments_first :: string where
  \<open>arguments_first = ''{"arguments": {"path": "notes.txt"}, "name": "read_file"}''\<close>

section \<open>Facts about the string operations\<close>

lemma startswith_Nil [simp]: "startswith s []"
  by (simp add: startswith_def)

lemma startswith_Cons [simp]: "startswith (c # s) (d # p) = (c = d \<and> startswith s p)"
  by (auto simp: startswith_def)

lemma startswith_Nil_left [simp]: "startswith [] p = (p = [])"
  by (auto simp: startswith_def)

lemma startswith_append [simp]: "startswith (p @ s) p"
  by (simp add: startswith_def)

lemma contains_Nil [simp]: "contains [] s"
  by (cases s) simp_all




section \<open>The registry and the executors\<close>

text \<open>
  Claim C7, as amended. A name outside the registered set does not make
  \<open>execute_tool\<close> raise: it returns the text \<open>Error: Unknown tool '<name>'\<close> and leaves
  the machine as it was.
\<close>

theorem unknown_tool_text:
  "name \<notin> set tool_names \<Longrightarrow>
   execute_tool E (JStr name) arguments w = (Inr (''Error: Unknown tool '' @ [sq] @ name @ [sq]), w)"
  by (simp add: execute_tool_def tool_functions_def tool_names_def py_str_def)

theorem unknown_tool_text_witness:
  "''fly'' \<notin> set tool_names \<and>
   execute_tool (demo_env server_down 0 []) (JStr ''fly'') (JObj [(''to'', JStr ''moon'')]) demo_world
     = (Inr (''Error: Unknown tool '' @ [sq] @ ''fly'' @ [sq]), demo_world)"
proof -
  have h: "''fly'' \<notin> set tool_names" by (simp add: tool_names_def)
  show ?thesis using h unknown_tool_text [OF h] by simp
qed

text \<open>
  Claim C7 as stated fails: for the unregistered name \<open>deploy\<close> the dispatch returns a
  text and raises nothing.
\<close>

theorem unknown_tool_returns:
  "execute_tool (demo_env server_down 0 []) (JStr ''deploy'') (JObj []) demo_world
     = (Inr (''Error: Unknown tool '' @ [sq] @ ''deploy'' @ [sq]), demo_world)
   \<and> \<not> isl (fst (execute_tool (demo_env server_down 0 []) (JStr ''deploy'') (JObj []) demo_world))"
  by (simp add: execute_tool_def tool_functions_def py_str_def)



text \<open>
  Claim C6. A command that one of the dangerous patterns matches is answered with the
  \<open>blocked for safety\<close> text: nothing is handed to \<open>subprocess.run\<close> and the machine
  is unchanged; the patterns are searched in the command string itself. Any other
  command is handed to \<open>subprocess.run\<close> once, as the same string; when the process
  completes with a nonzero status, the returned text ends with \<open>Exit code: <status>\<close>.
\<close>

theorem bash_deny_list:
  "((\<exists>pattern \<in> set dangerous_patterns. re_search pattern cmd \<noteq> None) \<longrightarrow>
      tool_bash E (JStr cmd) w =
        \<lparr>outcome = Inr (''Error: Command blocked for safety: '' @ cmd), machine = w, spawned = []\<rparr>)
   \<and> (\<not> (\<exists>pattern \<in> set dangerous_patterns. re_search pattern cmd \<noteq> None) \<longrightarrow>
        spawned (tool_bash E (JStr cmd) w) = [ShellCmd cmd]
      \<and> (\<forall>r w'. subprocess_run E (ShellCmd cmd) (Some 120) (Some (project_root E)) w = (Inr r, w')
             \<longrightarrow> returncode r \<noteq> 0
             \<longrightarrow> (\<exists>pre. outcome (tool_bash E (JStr cmd) w)
                          = Inr (pre @ ''Exit code: '' @ str_int (returncode r)))))"
proof -
  have b: "blocked cmd \<longleftrightarrow> (\<exists>pattern \<in> set dangerous_patterns. re_search pattern cmd \<noteq> None)"
    unfolding blocked_def list_ex_iff by (rule refl)
  show ?thesis
    unfolding b [symmetric]
  proof (intro conjI impI allI)
    assume "blocked cmd"
    then show "tool_bash E (JStr cmd) w =
        \<lparr>outcome = Inr (''Error: Command blocked for safety: '' @ cmd), machine = w, spawned = []\<rparr>"
      by (simp add: tool_bash_def as_str_def)
  next
    assume nb: "\<not> blocked cmd"
    obtain res w1 where run1:
      "subprocess_run E (ShellCmd cmd) (Some 120) (Some (project_root E)) w = (res, w1)"
      by (cases "subprocess_run E (ShellCmd cmd) (Some 120) (Some (project_root E)) w") auto
    show "spawned (tool_bash E (JStr cmd) w) = [ShellCmd cmd]"
      using nb run1 by (simp add: tool_bash_def as_str_def split: sum.splits exn.splits)
    fix r w'
    assume run: "subprocess_run E (ShellCmd cmd) (Some 120) (Some (project_root E)) w = (Inr r, w')"
      and rc: "returncode r \<noteq> 0"
    have "bash_output r =
        ((if stdout r \<noteq> [] then ''stdout:'' @ [nl] @ stdout r @ [nl] else []) @
         (if stderr r \<noteq> [] then ''stderr:'' @ [nl] @ stderr r @ [nl] else [])) @
        ''Exit code: '' @ str_int (returncode r)"
      using rc by (simp add: bash_output_def Let_def)
    then have "outcome (tool_bash E (JStr cmd) w) =
        Inr (((if stdout r \<noteq> [] then ''stdout:'' @ [nl] @ stdout r @ [nl] else []) @
              (if stderr r \<noteq> [] then ''stderr:'' @ [nl] @ stderr r @ [nl] else [])) @
             ''Exit code: '' @ str_int (returncode r))"
      using nb run by (simp add: tool_bash_def as_str_def)
    then show "\<exists>pre. outcome (tool_bash E (JStr cmd) w)
        = Inr (pre @ ''Exit code: '' @ str_int (returncode r))"
      by blast
  qed
qed

theorem bash_deny_list_witness:
  "tool_bash (demo_env server_down 2 []) (JStr ''sudo rm  -rf /'') demo_world =
     \<lparr>outcome = Inr ''Error: Command blocked for safety: sudo rm  -rf /'', machine = demo_world,
      spawned = []\<rparr>
   \<and> spawned (tool_bash (demo_env server_down 2 []) (JStr ''make test'') demo_world)
       = [ShellCmd ''make test'']
   \<and> outcome (tool_bash (demo_env server_down 2 []) (JStr ''make test'') demo_world)
       = Inr (''stdout:'' @ [nl] @ ''out'' @ [nl] @ ''Exit code: 2'')"
proof -
  have a: "\<exists>pattern \<in> set dangerous_patterns. re_search pattern ''sudo rm  -rf /'' \<noteq> None"
    by (simp add: dangerous_patterns_def match_here_def isspace_def)
  have b: "\<not> (\<exists>pattern \<in> set dangerous_patterns. re_search pattern ''make test'' \<noteq> None)"
    by (simp add: dangerous_patterns_def match_here_def isspace_def)
  have c: "outcome (tool_bash (demo_env server_down 2 []) (JStr ''make test'') demo_world)
       = Inr (''stdout:'' @ [nl] @ ''out'' @ [nl] @ ''Exit code: 2'')"
    using b by (simp add: tool_bash_def as_str_def blocked_def list_ex_iff demo_env_def bash_output_def
        str_int_def digit_chr_def)
  show ?thesis
    using bash_deny_list [of "''sudo rm  -rf /''" "demo_env server_down 2 []" demo_world]
          bash_deny_list [of "''make test''" "demo_env server_down 2 []" demo_world] a b c
    by simp
qed

text \<open>
  Claim C9. With the matches that \<open>glob\<close> finds: none gives the \<open>No files found\<close> text;
  otherwise the text reports the number of all matches and lists the first fifty of
  them, relative to the project root, and no more.
\<close>

theorem glob_search_cap:
  assumes "search_path E path = Inr sp" and "glob E (path_join sp pat) w = Inr matches"
  shows "(matches = [] \<longrightarrow>
            tool_glob_search E (JStr pat) path w = ''No files found matching pattern: '' @ pat)
       \<and> (matches \<noteq> [] \<longrightarrow>
            tool_glob_search E (JStr pat) path w =
              ''Found '' @ str_nat (length matches) @ '' files:'' @ [nl]
                @ join [nl] (take 50 (map (\<lambda>m. relpath E m (project_root E)) matches))
          \<and> length (take 50 (map (\<lambda>m. relpath E m (project_root E)) matches)) = min 50 (length matches))"
  using assms by (simp add: tool_glob_search_def as_str_def Let_def min_def)

theorem glob_search_cap_witness:
  "tool_glob_search (demo_env server_down 0 sixty) (JStr ''**/*.py'') JNull demo_world =
     ''Found 60 files:'' @ [nl] @ join [nl] (map (\<lambda>i. ''src/m'' @ str_nat i @ ''.py'') [0..<50])
   \<and> tool_glob_search (demo_env server_down 0 []) (JStr ''**/*.py'') JNull demo_world =
     ''No files found matching pattern: **/*.py''"
proof -
  have a: "search_path (demo_env server_down 0 found) JNull = Inr ''/repo''" for found
    by (simp add: search_path_def truthy_def resolve_def as_str_def demo_env_def isabs_def)
  have b: "glob (demo_env server_down 0 found) (path_join ''/repo'' ''**/*.py'') demo_world = Inr found"
    for found
    by (simp add: demo_env_def)
  have c: "sixty \<noteq> []" by (simp add: sixty_def)
  have d: "length sixty = 60" by (simp add: sixty_def)
  have e: "take 50 (map (\<lambda>m. relpath (demo_env server_down 0 sixty) m
                 (project_root (demo_env server_down 0 sixty))) sixty)
     = map (\<lambda>i. ''src/m'' @ str_nat i @ ''.py'') [0..<50]"
    by (simp add: demo_env_def sixty_def take_map)
  have f: "str_nat 60 = ''60''" by (simp add: digit_chr_def)
  show ?thesis using glob_search_cap [OF a b, of sixty] glob_search_cap [OF a b, of "[]"] c d e f by simp
qed

text \<open>Every text that a tool returns is a \<open>tool_text\<close>.\<close>

lemma tool_read_file_text: "tool_text (tool_read_file E path w)"
  by (simp add: tool_read_file_def tool_text_def split: sum.splits exn.splits)

lemma tool_write_file_text: "tool_text (fst (tool_write_file E path content w))"
  by (simp add: tool_write_file_def tool_text_def split: sum.splits option.splits prod.splits)

lemma tool_edit_file_text: "tool_text (fst (tool_edit_file E path old new w))"
  by (simp add: tool_edit_file_def tool_text_def split: sum.splits option.splits prod.splits exn.splits)

lemma bash_output_text: "tool_text (bash_output r)"
  by (simp add: bash_output_def tool_text_def Let_def)

lemma tool_bash_text: "outcome (tool_bash E command w) = Inr t \<Longrightarrow> tool_text t"
  using bash_output_text
  by (auto simp: tool_bash_def tool_text_def split: sum.splits prod.splits exn.splits if_splits)

lemma tool_glob_search_text: "tool_text (tool_glob_search E pattern path w)"
  by (simp add: tool_glob_search_def tool_text_def Let_def split: sum.splits)

lemma tool_grep_search_text: "tool_text (fst (tool_grep_search E pattern path fp w))"
  by (simp add: tool_grep_search_def tool_text_def Let_def split: sum.splits prod.splits exn.splits)

lemma tool_pair_texts:
  "tool_write_file E path content w = (t, w') \<Longrightarrow> tool_text t"
  "tool_edit_file E path old new w = (t, w') \<Longrightarrow> tool_text t"
  "tool_grep_search E pattern spath fp w = (t, w') \<Longrightarrow> tool_text t"
  using tool_write_file_text [of E path content w] tool_edit_file_text [of E path old new w]
    tool_grep_search_text [of E pattern spath fp w]
  by simp_all

lemma call_texts:
  "call_read_file E args w = (Inr t, w') \<Longrightarrow> tool_text t"
  "call_write_file E args w = (Inr t, w') \<Longrightarrow> tool_text t"
  "call_edit_file E args w = (Inr t, w') \<Longrightarrow> tool_text t"
  "call_bash E args w = (Inr t, w') \<Longrightarrow> tool_text t"
  "call_glob_search E args w = (Inr t, w') \<Longrightarrow> tool_text t"
  "call_grep_search E args w = (Inr t, w') \<Longrightarrow> tool_text t"
  by (auto simp: call_read_file_def call_write_file_def call_edit_file_def call_bash_def
      call_glob_search_def call_grep_search_def tool_read_file_text tool_glob_search_text
      dest: tool_pair_texts tool_bash_text split: sum.splits prod.splits)

lemma execute_tool_text: "execute_tool E name arguments w = (Inr t, w') \<Longrightarrow> tool_text t"
  unfolding execute_tool_def
  by (auto simp: tool_functions_def tool_text_def [of "_ # _"] dest: call_texts
      split: json.splits option.splits if_splits)

section \<open>The conversation loop\<close>

lemma turn_round_trips:
  "turn E model st = Stop r \<Longrightarrow> round_trips r = Suc (round_trips st)"
  "turn E model st = Continue st' \<Longrightarrow> round_trips st' = Suc (round_trips st)"
  by (auto simp: turn_def Let_def split: prod.splits sum.splits json.splits if_splits)

lemma agent_loop_round_trips: "round_trips (agent_loop E model n st) \<le> round_trips st + n"
proof (induction n arbitrary: st)
  case 0
  then show ?case by simp
next
  case (Suc n)
  show ?case
  proof (cases "turn E model st")
    case (Stop r)
    then show ?thesis using turn_round_trips(1) [OF Stop] by simp
  next
    case (Continue st')
    then show ?thesis using turn_round_trips(2) [OF Continue] Suc.IH [of st'] by simp
  qed
qed

text \<open>
  Claim C1. Whatever the prompt, the model, the environment and the answers of the
  server, a run calls \<open>chat_with_ollama\<close> at most \<open>max_iterations\<close> times (and not at
  all when \<open>max_iterations\<close> is negative). The run is a total function: it ends.
\<close>

theorem run_agent_loop_bounded:
  "int (round_trips (run_agent_loop E prompt model max_iterations w)) \<le> max 0 max_iterations"
proof -
  have "round_trips (run_agent_loop E prompt model max_iterations w) \<le> nat max_iterations"
    unfolding run_agent_loop_def
    by (rule order_trans [OF agent_loop_round_trips]) simp
  then show ?thesis by linarith
qed

theorem run_agent_loop_bounded_witness:
  "round_trips (run_agent_loop (demo_env always_tool 0 []) ''task'' ''m'' 3 demo_world) = 3
   \<and> int (round_trips (run_agent_loop (demo_env always_tool 0 []) ''task'' ''m'' 3 demo_world)) \<le> max 0 3"
proof -
  have "round_trips (run_agent_loop (demo_env always_tool 0 []) ''task'' ''m'' 3 demo_world) = 3"
    by code_simp
  then show ?thesis
    using run_agent_loop_bounded [of "demo_env always_tool 0 []" "''task''" "''m''" 3 demo_world]
    by simp
qed


text \<open>
  Claim C4 fails on the code: \<open>execute_tool\<close> reads the required arguments with
  \<open>args["..."]\<close> outside any \<open>try\<close>. For \<open>read_file\<close> with an empty argument mapping
  it raises \<open>KeyError\<close>; the exception leaves \<open>run_agent_loop\<close> after one round-trip,
  and there is no next turn.
\<close>

theorem missing_argument_raises:
  "execute_tool (demo_env forgetful 0 []) (JStr ''read_file'') (JObj []) demo_world
     = (Inl (KeyError ''path''), demo_world)
   \<and> ending (run_agent_loop (demo_env forgetful 0 []) ''task'' ''m'' 3 demo_world) = Raised (KeyError ''path'')
   \<and> round_trips (run_agent_loop (demo_env forgetful 0 []) ''task'' ''m'' 3 demo_world) = 1"
proof -
  have "execute_tool E (JStr ''read_file'') (JObj []) w = (Inl (KeyError ''path''), w)" for E :: "unit env" and w
    by (simp add: execute_tool_def tool_functions_def call_read_file_def py_getitem_def)
  moreover have "ending (run_agent_loop (demo_env forgetful 0 []) ''task'' ''m'' 3 demo_world) = Raised (KeyError ''path'')"
    by code_simp
  moreover have "round_trips (run_agent_loop (demo_env forgetful 0 []) ''task'' ''m'' 3 demo_world) = 1"
    by code_simp
  ultimately show ?thesis by simp
qed


subsection \<open>How a run ends\<close>

lemma dispatch_appends:
  "dispatch E tcs rs msgs w = (Inr (rs', msgs'), w') \<Longrightarrow>
   \<exists>new. msgs' = msgs @ new \<and> length new = length tcs \<and> list_all tool_message new"
proof (induction tcs arbitrary: rs msgs w)
  case Nil
  then show ?case by simp
next
  case (Cons tc tcs)
  from Cons.prems obtain tool_name tool_args t w1 where
    n: "py_get tc ''name'' (JStr []) = Inr tool_name" and
    a: "py_get tc ''arguments'' (JObj []) = Inr tool_args" and
    x: "execute_tool E tool_name tool_args w = (Inr t, w1)" and
    d: "dispatch E tcs (rs @ [''**'' @ py_str E tool_name @ ''** result:'' @ [nl] @ t])
          (msgs @ [JObj [(''role'', JStr ''tool''), (''name'', tool_name), (''content'', JStr t)]]) w1
        = (Inr (rs', msgs'), w')"
    by (auto split: sum.splits prod.splits)
  from Cons.IH [OF d] obtain new where
    new: "msgs' = (msgs @ [JObj [(''role'', JStr ''tool''), (''name'', tool_name), (''content'', JStr t)]]) @ new"
      "length new = length tcs" "list_all tool_message new"
    by blast
  have "tool_message (JObj [(''role'', JStr ''tool''), (''name'', tool_name), (''content'', JStr t)])"
    using execute_tool_text [OF x] by (auto simp: tool_message_def)
  then show ?case
    using new
    by (intro exI [of _ "JObj [(''role'', JStr ''tool''), (''name'', tool_name), (''content'', JStr t)] # new"])
       simp
qed

lemma dispatch_quiet:
  assumes "dispatch E tcs rs msgs w = (Inr (rs', msgs'), w')" and "tcs \<noteq> []"
  shows "msgs' \<noteq> [] \<and> tool_message (last msgs')"
proof -
  from dispatch_appends [OF assms(1)] obtain new where
    new: "msgs' = msgs @ new" "length new = length tcs" "list_all tool_message new"
    by blast
  then have "new \<noteq> []" using assms(2) by auto
  then show ?thesis using new by (auto simp: list_all_iff)
qed

lemma turn_Continue:
  assumes "turn E model st = Continue st'"
  shows "final_response st' = final_response st \<and> all_messages st' \<noteq> []
         \<and> tool_message (last (all_messages st'))"
  using assms
  by (auto simp: turn_def Let_def split: prod.splits sum.splits json.splits if_splits
      dest!: dispatch_quiet)

lemma turn_Stop:
  assumes "turn E model st = Stop r"
  shows "(ending r = TransportFailure
            \<and> (\<exists>e. final_response r = ''Error in agent loop: '' @ exn_str E e)
            \<and> all_messages r = all_messages st)
       \<or> (ending r = Done \<and> all_messages r \<noteq> []
            \<and> py_get (last (all_messages r)) ''content'' (JStr []) = Inr (JStr (final_response r)))
       \<or> (\<exists>e. ending r = Raised e)"
  using assms
  by (auto simp: turn_def Let_def split: prod.splits sum.splits json.splits if_splits)

lemma agent_loop_outcome:
  assumes "quiet (all_messages st)" and "final_response st = []"
  shows "(ending (agent_loop E model n st) = Truncated \<longrightarrow>
            final_response (agent_loop E model n st) = [] \<and> quiet (all_messages (agent_loop E model n st)))
       \<and> (ending (agent_loop E model n st) = TransportFailure \<longrightarrow>
            (\<exists>e. final_response (agent_loop E model n st) = ''Error in agent loop: '' @ exn_str E e)
            \<and> quiet (all_messages (agent_loop E model n st)))
       \<and> (ending (agent_loop E model n st) = Done \<longrightarrow>
            all_messages (agent_loop E model n st) \<noteq> []
            \<and> py_get (last (all_messages (agent_loop E model n st))) ''content'' (JStr [])
                = Inr (JStr (final_response (agent_loop E model n st))))"
  using assms
proof (induction n arbitrary: st)
  case 0
  then show ?case by simp
next
  case (Suc n)
  show ?case
  proof (cases "turn E model st")
    case (Stop r)
    with turn_Stop [OF Stop] Suc.prems show ?thesis by auto
  next
    case (Continue st')
    from turn_Continue [OF Continue] Suc.prems
    have "quiet (all_messages st')" "final_response st' = []"
      by (auto simp: quiet_def)
    from Suc.IH [OF this] Continue show ?thesis by simp
  qed
qed

lemma tool_message_content:
  "tool_message m \<Longrightarrow> \<exists>t. py_get m ''content'' (JStr []) = Inr (JStr t) \<and> tool_text t"
  by (auto simp: tool_message_def py_get_def)


text \<open>
  Claim C2, as amended. A run that returns ends \<open>Done\<close>, \<open>Truncated\<close> or with a
  transport failure. When the iterations run out, the answer returned is the empty
  string (not an error text, and not the last assistant content, which only the
  transcript holds); a transport failure returns \<open>Error in agent loop: ...\<close>; \<open>Done\<close>
  returns the content of the last message of the transcript. The pair that
  \<open>run_agent_loop\<close> returns tells the three apart: two runs that return the same
  \<open>final_response\<close> and the same \<open>all_messages\<close> ended the same way.
\<close>

theorem run_outcome_distinct:
  fixes E1 :: "'x env" and E2 :: "'y env"
  assumes r1: "r1 = run_agent_loop E1 prompt1 model1 cap1 w1"
    and r2: "r2 = run_agent_loop E2 prompt2 model2 cap2 w2"
    and ret1: "\<forall>e. ending r1 \<noteq> Raised e" and ret2: "\<forall>e. ending r2 \<noteq> Raised e"
    and same: "final_response r1 = final_response r2 \<and> all_messages r1 = all_messages r2"
  shows "(ending r1 = Truncated \<longrightarrow> final_response r1 = [])
       \<and> (ending r1 = TransportFailure \<longrightarrow>
            (\<exists>e. final_response r1 = ''Error in agent loop: '' @ exn_str E1 e))
       \<and> (ending r1 = Done \<longrightarrow> all_messages r1 \<noteq> []
            \<and> py_get (last (all_messages r1)) ''content'' (JStr []) = Inr (JStr (final_response r1)))
       \<and> ending r1 = ending r2"
proof -
  have o1: "(ending r1 = Truncated \<longrightarrow> final_response r1 = [] \<and> quiet (all_messages r1))
       \<and> (ending r1 = TransportFailure \<longrightarrow>
            (\<exists>e. final_response r1 = ''Error in agent loop: '' @ exn_str E1 e) \<and> quiet (all_messages r1))
       \<and> (ending r1 = Done \<longrightarrow> all_messages r1 \<noteq> []
            \<and> py_get (last (all_messages r1)) ''content'' (JStr []) = Inr (JStr (final_response r1)))"
    unfolding r1 run_agent_loop_def by (rule agent_loop_outcome) (simp_all add: quiet_def)
  have o2: "(ending r2 = Truncated \<longrightarrow> final_response r2 = [] \<and> quiet (all_messages r2))
       \<and> (ending r2 = TransportFailure \<longrightarrow>
            (\<exists>e. final_response r2 = ''Error in agent loop: '' @ exn_str E2 e) \<and> quiet (all_messages r2))
       \<and> (ending r2 = Done \<longrightarrow> all_messages r2 \<noteq> []
            \<and> py_get (last (all_messages r2)) ''content'' (JStr []) = Inr (JStr (final_response r2)))"
    unfolding r2 run_agent_loop_def by (rule agent_loop_outcome) (simp_all add: quiet_def)
  have done_not_quiet: "\<not> (quiet msgs \<and> msgs \<noteq> []
      \<and> py_get (last msgs) ''content'' (JStr []) = Inr (JStr f)
      \<and> (f = [] \<or> (\<exists>x. f = ''Error in agent loop: '' @ x)))" for msgs f
    by (auto simp: quiet_def tool_text_def dest!: tool_message_content)
  have "ending r1 = ending r2"
  proof (cases "ending r1")
    case Done
    show ?thesis
    proof (cases "ending r2")
      case Truncated
      with Done o1 o2 same done_not_quiet [of "all_messages r2" "final_response r2"]
      show ?thesis by auto
    next
      case TransportFailure
      with Done o1 o2 same done_not_quiet [of "all_messages r2" "final_response r2"]
      show ?thesis by auto
    qed (use Done ret2 in auto)
  next
    case Truncated
    show ?thesis
    proof (cases "ending r2")
      case Done
      with Truncated o1 o2 same done_not_quiet [of "all_messages r1" "final_response r1"]
      show ?thesis by auto
    next
      case TransportFailure
      with Truncated o1 o2 same show ?thesis by auto
    qed (use Truncated ret2 in auto)
  next
    case TransportFailure
    show ?thesis
    proof (cases "ending r2")
      case Done
      with TransportFailure o1 o2 same done_not_quiet [of "all_messages r1" "final_response r1"]
      show ?thesis by auto
    next
      case Truncated
      with TransportFailure o1 o2 same show ?thesis by auto
    qed (use TransportFailure ret2 in auto)
  next
    case (Raised e)
    then show ?thesis using ret1 by simp
  qed
  then show ?thesis using o1 by simp
qed

theorem run_outcome_distinct_witness:
  "ending (run_agent_loop (demo_env always_tool 0 []) ''task'' ''m'' 2 demo_world) = Truncated
   \<and> final_response (run_agent_loop (demo_env always_tool 0 []) ''task'' ''m'' 2 demo_world) = []"
proof -
  have e: "ending (run_agent_loop (demo_env always_tool 0 []) ''task'' ''m'' 2 demo_world) = Truncated"
    by code_simp
  then have r: "\<forall>x. ending (run_agent_loop (demo_env always_tool 0 []) ''task'' ''m'' 2 demo_world) \<noteq> Raised x"
    by simp
  show ?thesis
    using run_outcome_distinct [OF refl refl r r, of ] e by simp
qed


text \<open>
  Claim C2 as stated fails: with \<open>max_iterations = 1\<close> and a model that asks for a
  tool, the run ends \<open>Truncated\<close> and returns the empty string, although the assistant
  message of that turn had content.
\<close>

theorem truncated_returns_empty:
  "ending (run_agent_loop (demo_env always_tool 0 []) ''task'' ''m'' 1 demo_world) = Truncated
   \<and> final_response (run_agent_loop (demo_env always_tool 0 []) ''task'' ''m'' 1 demo_world) = []
   \<and> hd (all_messages (run_agent_loop (demo_env always_tool 0 []) ''task'' ''m'' 1 demo_world))
       = JObj [(''role'', JStr ''assistant''), (''content'', JStr read_notes_block)]
   \<and> read_notes_block \<noteq> []"
  by code_simp


section \<open>The transcript recorder\<close>

lemma save_output_files:
  assumes mk: "dirname out = [] \<or> makedirs w (dirname out) = None"
    and w1: "unwritable w out = None"
    and w2: "unwritable w (replace out ''.jsonl'' ''.json'') = None"
  shows "\<exists>w'. save_output E msgs out w = (None, w')
           \<and> files w' (replace out ''.jsonl'' ''.json'') = Some (dumps_indent E msgs)
           \<and> (replace out ''.jsonl'' ''.json'' \<noteq> out \<longrightarrow>
                files w' out = Some (concat (map (\<lambda>msg. dumps E msg @ [nl]) msgs)))"
  using assms by (auto simp: save_output_def write_text_def)


text \<open>
  Claim C8, as amended. When the run returns (in any of the three terminal states) and
  the two files can be written, \<open>prompt_local_agent\<close> persists the list
  \<open>all_messages\<close> that the run returned: to \<open>output_file\<close>, one \<open>json.dumps\<close> line per
  message in order, and to \<open>output_file.replace(".jsonl", ".json")\<close>, the same list as
  one JSON document; these are two files when the replacement changes the path.
  \<open>all_messages\<close> holds the assistant messages and the tool messages; the list
  \<open>messages\<close> sent to the model (system prompt, user prompt, tool-result summaries) is
  not written.
\<close>

theorem transcript_saved:
  assumes pre1: "if_msg (check_ollama_installed E w) = None"
    and model: "model = (case model_map E (rq_model request) of Some m \<Rightarrow> m | None \<Rightarrow> ollama_model E)"
    and pre2: "if_msg (check_model_available E model w) = None"
    and sp: "save_prompt E (rq_prompt request) (rq_adw_id request) (rq_agent_name request) w = (None, w2)"
    and r: "r = run_agent_loop E (rq_prompt request) model 20 w2"
    and ret: "\<forall>e. ending r \<noteq> Raised e"
    and mk: "dirname (rq_output_file request) = []
             \<or> makedirs (world_after r) (dirname (rq_output_file request)) = None"
    and wr1: "unwritable (world_after r) (rq_output_file request) = None"
    and json_file: "json_file = replace (rq_output_file request) ''.jsonl'' ''.json''"
    and wr2: "unwritable (world_after r) json_file = None"
    and two: "json_file \<noteq> rq_output_file request"
  shows "\<exists>w3. prompt_local_agent E request w =
            (Inr \<lparr>rs_output = final_response r, rs_success = True,
                  rs_session_id = Some (rq_adw_id request)\<rparr>, w3)
          \<and> files w3 (rq_output_file request)
              = Some (concat (map (\<lambda>msg. dumps E msg @ [nl]) (all_messages r)))
          \<and> files w3 json_file = Some (dumps_indent E (all_messages r))"
proof -
  from save_output_files [OF mk wr1 wr2 [unfolded json_file], of E "all_messages r"] two
  obtain w3 where s: "save_output E (all_messages r) (rq_output_file request) (world_after r) = (None, w3)"
    and f1: "files w3 json_file = Some (dumps_indent E (all_messages r))"
    and f2: "files w3 (rq_output_file request)
              = Some (concat (map (\<lambda>msg. dumps E msg @ [nl]) (all_messages r)))"
    unfolding json_file by blast
  have "prompt_local_agent E request w =
            (Inr \<lparr>rs_output = final_response r, rs_success = True,
                  rs_session_id = Some (rq_adw_id request)\<rparr>, w3)"
    using pre1 pre2 sp ret s
    unfolding prompt_local_agent_def model [symmetric] Let_def r [symmetric]
    by (cases "ending r") (simp_all add: model [symmetric] r [symmetric])
  then show ?thesis using f1 f2 by blast
qed


theorem transcript_saved_witness:
  "fst (prompt_local_agent (demo_env plain_answer 0 []) demo_request demo_world)
     = Inr \<lparr>rs_output = ''The answer is 42.'', rs_success = True, rs_session_id = Some ''a1b2''\<rparr>
   \<and> files (snd (prompt_local_agent (demo_env plain_answer 0 []) demo_request demo_world))
        ''/repo/agents/a1b2/ops/raw_output.jsonl'' = Some (''assistant'' @ [nl])
   \<and> files (snd (prompt_local_agent (demo_env plain_answer 0 []) demo_request demo_world))
        ''/repo/agents/a1b2/ops/raw_output.json'' = Some ''1''"
proof -
  let ?E = "demo_env plain_answer 0 []"
  let ?r = "run_agent_loop ?E (rq_prompt demo_request) ''deepseek-r1:8b'' 20 demo_world"
  have pre1: "if_msg (check_ollama_installed ?E demo_world) = None"
    by (simp add: demo_env_def if_msg_def)
  have model: "''deepseek-r1:8b'' = (case model_map ?E (rq_model demo_request) of Some m \<Rightarrow> m | None \<Rightarrow> ollama_model ?E)"
    by (simp add: demo_env_def demo_request_def)
  have pre2: "if_msg (check_model_available ?E ''deepseek-r1:8b'' demo_world) = None"
    by (simp add: demo_env_def if_msg_def)
  have sp: "save_prompt ?E (rq_prompt demo_request) (rq_adw_id demo_request) (rq_agent_name demo_request) demo_world
              = (None, demo_world)"
    by (simp add: save_prompt_def demo_request_def match_here_def)
  have e: "ending ?r = Done" by code_simp
  then have ret: "\<forall>x. ending ?r \<noteq> Raised x" by simp
  have mk: "dirname (rq_output_file demo_request) = []
             \<or> makedirs (world_after ?r) (dirname (rq_output_file demo_request)) = None"
    by code_simp
  have wr1: "unwritable (world_after ?r) (rq_output_file demo_request) = None"
    by code_simp
  have jf: "''/repo/agents/a1b2/ops/raw_output.json'' = replace (rq_output_file demo_request) ''.jsonl'' ''.json''"
    by code_simp
  have wr2: "unwritable (world_after ?r) ''/repo/agents/a1b2/ops/raw_output.json'' = None"
    by code_simp
  have two: "''/repo/agents/a1b2/ops/raw_output.json'' \<noteq> rq_output_file demo_request"
    by (simp add: demo_request_def)
  have f: "final_response ?r = ''The answer is 42.''" by code_simp
  have a: "concat (map (\<lambda>msg. dumps ?E msg @ [nl]) (all_messages ?r)) = ''assistant'' @ [nl]" by code_simp
  have b: "dumps_indent ?E (all_messages ?r) = ''1''" by code_simp
  have o: "rq_output_file demo_request = ''/repo/agents/a1b2/ops/raw_output.jsonl''"
      "rq_adw_id demo_request = ''a1b2''"
    by (simp_all add: demo_request_def)
  from transcript_saved [OF pre1 model pre2 sp refl ret mk wr1 jf wr2 two]
  show ?thesis unfolding f a b o by auto
qed


text \<open>
  Claim C8 as stated fails. The message history of a run holds the user's prompt, and
  the files hold only the transcript (here the one assistant message); and for an
  output path without \<open>.jsonl\<close> both writes go to the same file, which ends up
  holding the JSON document, not the lines.
\<close>

theorem history_not_saved:
  "JObj [(''role'', JStr ''user''), (''content'', JStr ''What is 2 + 2?'')]
     \<in> set (messages (run_agent_loop (demo_env plain_answer 0 []) ''What is 2 + 2?'' ''deepseek-r1:8b'' 20 demo_world))
   \<and> all_messages (run_agent_loop (demo_env plain_answer 0 []) ''What is 2 + 2?'' ''deepseek-r1:8b'' 20 demo_world)
       = [JObj [(''role'', JStr ''assistant''), (''content'', JStr ''The answer is 42.'')]]
   \<and> files (snd (prompt_local_agent (demo_env plain_answer 0 []) demo_request demo_world))
        ''/repo/agents/a1b2/ops/raw_output.jsonl'' = Some (''assistant'' @ [nl])
   \<and> files (snd (prompt_local_agent (demo_env plain_answer 0 []) log_request demo_world))
        ''/repo/agents/a1b2/ops/run.log'' = Some ''1''"
  by code_simp

section \<open>Matching the patterns of the extractor\<close>

text \<open>
  The equation of \<open>findall\<close> is applied by hand below: as a rewrite rule it would
  unfold without end.
\<close>

declare findall.simps [simp del]


lemma star_greedy_stop:
  "s = [] \<or> \<not> P (hd s) \<Longrightarrow> star_greedy P k s = k s"
  by (cases s) auto

lemma star_greedy_take:
  "list_all P u \<Longrightarrow> (s = [] \<or> \<not> P (hd s)) \<Longrightarrow> k s = Some r \<Longrightarrow> star_greedy P k (u @ s) = Some r"
  by (induction u) (simp_all add: star_greedy_stop)

lemma star_greedy_through:
  "list_all P u \<Longrightarrow> (\<forall>c \<in> set u. \<forall>t. k (c # t) = None) \<Longrightarrow>
   star_greedy P k (u @ s) = star_greedy P k s"
  by (induction u) (auto split: option.splits)

lemma star_greedy_fail:
  "v \<noteq> [] \<Longrightarrow> \<not> P (last v) \<Longrightarrow> (\<forall>c \<in> set v. \<forall>t. k (c # t) = None) \<Longrightarrow>
   star_greedy P k (v @ s) = None"
proof (induction v)
  case Nil
  then show ?case by simp
next
  case (Cons a v)
  show ?case
  proof (cases "v = []")
    case True
    then show ?thesis using Cons.prems by simp
  next
    case False
    then have "star_greedy P k (v @ s) = None"
      using Cons by simp
    then show ?thesis using Cons.prems by simp
  qed
qed

lemma star_lazy_through:
  "list_all P u \<Longrightarrow> (\<forall>c \<in> set u. \<forall>t. k (c # t) = None) \<Longrightarrow>
   star_lazy P k (u @ s) = star_lazy P k s"
  by (induction u) auto

lemma star_lazy_hit: "k s = Some r \<Longrightarrow> star_lazy P k s = Some r"
  by (cases s) auto

lemma match_here_miss: "c \<noteq> d \<Longrightarrow> match_here (Lit (d # l) # p) (c # s) = None"
  by (simp add: match_here_def)

lemma match_here_Nil_miss: "match_here (Lit (d # l) # p) [] = None"
  by (simp add: match_here_def)

lemma re_search_miss: "d \<notin> set s \<Longrightarrow> re_search (Lit (d # l) # p) s = None"
  by (induction s) (auto simp: match_here_miss match_here_Nil_miss)

lemma re_search_skip:
  "d \<notin> set pre \<Longrightarrow> re_search (Lit (d # l) # p) (pre @ s) = re_search (Lit (d # l) # p) s"
  by (induction pre) (auto simp: match_here_miss)

lemma re_search_hit:
  "match_here p (c # s) = Some m \<Longrightarrow> re_search p (c # s) = Some (c # s, m)"
  by simp

lemma findall_miss: "d \<notin> set s \<Longrightarrow> findall grp (Lit (d # l) # p) s = []"
  by (subst findall.simps) (simp add: re_search_miss)

lemma findall_hit:
  assumes "d \<notin> set pre" and "m \<noteq> []"
    and "match_here (Lit (d # l) # p) (m @ tail) = Some (tail, mk, g)"
  shows "findall grp (Lit (d # l) # p) (pre @ m @ tail)
           = (if grp then g else m) # findall grp (Lit (d # l) # p) tail"
proof -
  obtain c m' where m: "m = c # m'" using assms(2) by (cases m) auto
  have s: "re_search (Lit (d # l) # p) (pre @ m @ tail) = Some (m @ tail, tail, mk, g)"
    using assms(3) by (simp add: re_search_skip [OF assms(1)] m)
  have r: "resume (m @ tail) tail = tail"
    using assms(2) by (simp add: resume_def)
  show ?thesis
    by (subst findall.simps) (simp add: s r assms(2))
qed

text \<open>
  The match of the first pattern at a fenced block, of the second at a tag pair, and of
  the third at an object with the key \<open>name\<close> before the key \<open>arguments\<close>.
\<close>

lemma nl_not_space_facts: "isspace nl" "nl \<noteq> CHR 0x60" "CHR 0x60 \<noteq> nl"
  by (simp_all add: isspace_def nl_def)

lemma match_fenced:
  assumes bq: "CHR 0x60 \<notin> set j" and nn: "nl \<notin> set j" and hd: "j \<noteq> []" "\<not> isspace (hd j)"
  shows "match_here tool_block_pattern (fenced j @ tail)
           = Some (tail, j @ [nl] @ ''```'' @ tail, j)"
proof -
  define rest where "rest = j @ [nl] @ ''```'' @ tail"
  define k3 :: "string \<Rightarrow> mstate option" where
    "k3 = (\<lambda>s'. rx_match GroupClose (rx_match (Opt nl) (rx_match (Lit ''```'') Some)) (s', rest, []))"
  have k3_fail: "k3 (c # t) = None" if "c \<in> set j" for c t
    using that bq nn by (auto simp: k3_def)
  have k3_hit: "k3 ([nl] @ ''```'' @ tail) = Some (tail, rest, j)"
    by (simp add: k3_def rest_def)
  have "star_lazy (in_class Dot) k3 (j @ ([nl] @ ''```'' @ tail))
          = star_lazy (in_class Dot) k3 ([nl] @ ''```'' @ tail)"
    by (rule star_lazy_through) (auto simp: k3_fail list_all_iff)
  also have "\<dots> = Some (tail, rest, j)"
    by (rule star_lazy_hit) (rule k3_hit)
  finally have lazy: "star_lazy (in_class Dot) k3 rest = Some (tail, rest, j)"
    by (simp add: rest_def)
  obtain c j' where j: "j = c # j'" using hd by (cases j) auto
  have c: "c \<noteq> nl" "\<not> isspace c" using nn hd j by auto
  have k2: "rx_match (Opt nl) (rx_match GroupOpen (rx_match (LazyStar Dot)
              (rx_match GroupClose (rx_match (Opt nl) (rx_match (Lit ''```'') Some))))) (rest, [], [])
            = Some (tail, rest, j)"
    using lazy c by (simp add: rest_def j k3_def)
  show ?thesis
    using k2 c
    by (simp add: match_here_def tool_block_pattern_def fenced_def nl_not_space_facts rest_def j)
qed

lemma star_lazy_until:
  "list_all P u \<Longrightarrow> (\<forall>i < length u. k (drop i u @ s) = None) \<Longrightarrow>
   star_lazy P k (u @ s) = star_lazy P k s"
proof (induction u)
  case Nil
  then show ?case by simp
next
  case (Cons a u)
  have "k ((a # u) @ s) = None" using Cons.prems(2) by (metis drop0 length_greater_0_conv list.discI)
  moreover have "\<forall>i < length u. k (drop i u @ s) = None"
    using Cons.prems(2) by (metis Suc_less_eq drop_Suc_Cons length_Cons)
  ultimately show ?case using Cons by simp
qed

lemma star_greedy_first:
  "list_all P u \<Longrightarrow> (s = [] \<or> \<not> P (hd s)) \<Longrightarrow>
   (\<forall>i. 0 < i \<and> i \<le> length u \<longrightarrow> k (drop i u @ s) = None) \<Longrightarrow>
   star_greedy P k (u @ s) = k (u @ s)"
proof (induction u)
  case Nil
  then show ?case by (simp add: star_greedy_stop)
next
  case (Cons a u)
  have all: "\<forall>i. 0 < i \<and> i \<le> length u \<longrightarrow> k (drop i u @ s) = None"
  proof (intro allI impI)
    fix i assume "0 < i \<and> i \<le> length u"
    then have "k (drop (Suc i) (a # u) @ s) = None"
      using Cons.prems(3) by (metis Suc_le_mono length_Cons zero_less_Suc)
    then show "k (drop i u @ s) = None" by simp
  qed
  have "k (drop 1 (a # u) @ s) = None"
    using Cons.prems(3) by (metis One_nat_def Suc_le_mono length_Cons less_Suc0 less_one not_less zero_le)
  then have "k (u @ s) = None" by simp
  then have "star_greedy P k (u @ s) = None"
    using Cons.IH [OF _ Cons.prems(2) all] Cons.prems(1) by simp
  then show ?case using Cons.prems(1) by simp
qed

lemma match_tagged:
  assumes lt: "CHR ''<'' \<notin> set j" and ne: "j \<noteq> []" and h: "\<not> isspace (hd j)" and l: "\<not> isspace (last j)"
  shows "match_here tag_pattern (tagged j @ tail)
           = Some (tail, j @ ''</tool_call>'' @ tail, j)"
proof -
  define rest where "rest = j @ ''</tool_call>'' @ tail"
  define kL :: "string \<Rightarrow> mstate option" where
    "kL = (\<lambda>s'. rx_match (Lit ''</tool_call>'') Some (s', rest, take (length rest - length s') rest))"
  define k3 :: "string \<Rightarrow> mstate option" where
    "k3 = (\<lambda>s'. rx_match GroupClose (rx_match (Star WS) (rx_match (Lit ''</tool_call>'') Some)) (s', rest, []))"
  have k3_fail: "k3 (drop i j @ ''</tool_call>'' @ tail) = None" if "i < length j" for i
  proof -
    let ?v = "drop i j"
    have v: "?v \<noteq> []" "last ?v = last j" "set ?v \<subseteq> set j"
      using that by (auto simp: set_drop_subset)
    have "star_greedy (in_class WS)
            (\<lambda>s'. rx_match (Lit ''</tool_call>'') Some (s', mk, g))
            (?v @ ''</tool_call>'' @ tail) = None" for mk g
      by (rule star_greedy_fail) (use v l lt in auto)
    then show ?thesis by (simp add: k3_def del: rx_match.simps(1))
  qed
  have k3_hit: "k3 (''</tool_call>'' @ tail) = Some (tail, rest, j)"
    by (simp add: k3_def rest_def isspace_def)
  have "star_lazy (in_class Dot) k3 (j @ (''</tool_call>'' @ tail))
          = star_lazy (in_class Dot) k3 (''</tool_call>'' @ tail)"
    by (rule star_lazy_until) (use k3_fail in \<open>auto simp: list_all_iff\<close>)
  also have "\<dots> = Some (tail, rest, j)"
    by (rule star_lazy_hit) (rule k3_hit)
  finally have lazy: "star_lazy (in_class Dot) k3 rest = Some (tail, rest, j)"
    by (simp add: rest_def)
  have "star_greedy (in_class WS) (\<lambda>s'. rx_match GroupOpen (rx_match (LazyStar Dot)
          (rx_match GroupClose (rx_match (Star WS) (rx_match (Lit ''</tool_call>'') Some)))) (s', [], [])) rest
        = Some (tail, rest, j)"
    using lazy ne h by (subst star_greedy_stop) (auto simp: rest_def k3_def)
  then show ?thesis
    by (simp add: match_here_def tag_pattern_def tagged_def rest_def)
qed

lemma startswith_until:
  "d \<notin> set n \<Longrightarrow> d \<notin> set l \<Longrightarrow> startswith (n @ d # t) (l @ [d]) \<longleftrightarrow> n = l"
proof (induction n arbitrary: l)
  case Nil
  then show ?case by (cases l) auto
next
  case (Cons a n)
  then show ?case by (cases l) auto
qed

lemma space_facts: "isspace (CHR '' '')" "\<not> isspace (CHR 0x22)" "\<not> isspace (CHR '':'')" "\<not> isspace (CHR '','')"
  "\<not> isspace (CHR ''{'')" "\<not> isspace (CHR ''}'')"
  by (simp_all add: isspace_def dq_def)

lemma dq_facts: "dq \<noteq> CHR ''{''" "dq \<noteq> CHR ''}''" "dq \<noteq> CHR '' ''" "dq \<noteq> CHR '':''" "dq \<noteq> CHR '',''"
  "CHR ''{'' \<noteq> dq" "CHR ''}'' \<noteq> dq" "CHR '' '' \<noteq> dq" "CHR '':'' \<noteq> dq" "CHR '','' \<noteq> dq"
  "dq = CHR 0x22"
  by (simp_all add: dq_def)

lemma match_invocation:
  assumes name: "name \<noteq> []" "dq \<notin> set name" "CHR ''{'' \<notin> set name" "CHR ''}'' \<notin> set name"
    and A: "CHR ''{'' \<notin> set A" "CHR ''}'' \<notin> set A"
  shows "match_here json_pattern
           (''{'' @ [dq] @ ''name'' @ [dq] @ '': '' @ [dq] @ name @ [dq] @ '', '' @ [dq] @ ''arguments'' @ [dq]
              @ '': {'' @ A @ ''}}'' @ tail)
         = Some (tail, [], [])"
proof -
  let ?q = "CHR 0x22 :: char"
  note nq = name(2) [unfolded dq_def]
  define kA :: "mstate \<Rightarrow> mstate option" where
    "kA = foldr rx_match [Lit ''}'', Star NoBrace, Lit ''}''] Some"
  define k12 :: "mstate \<Rightarrow> mstate option" where
    "k12 = foldr rx_match [Lit ([?q] @ ''arguments'' @ [?q]), Star WS, Lit '':'', Star WS, Lit ''{'', Star NoBrace] kA"
  define k2 :: "mstate \<Rightarrow> mstate option" where
    "k2 = foldr rx_match [Lit ([?q] @ ''name'' @ [?q]), Star WS, Lit '':'', Star WS, Lit [?q], Plus NoQuote,
            Lit [?q], Star WS, Lit '','', Star NoBrace] k12"
  have pat: "match_here json_pattern s = rx_match (Lit ''{'') (rx_match (Star NoBrace) k2) (s, [], [])" for s
    by (simp add: match_here_def json_pattern_def k2_def k12_def kA_def)
  \<comment> \<open>from the end of the pattern backwards\<close>
  have hA: "kA (CHR ''}'' # CHR ''}'' # tail, [], []) = Some (tail, [], [])"
    by (simp add: kA_def)
  have h17: "star_greedy (in_class NoBrace) (\<lambda>s'. kA (s', [], [])) (A @ CHR ''}'' # CHR ''}'' # tail)
              = Some (tail, [], [])"
    by (rule star_greedy_take) (use A hA in \<open>auto simp: list_all_iff\<close>)
  have h12: "k12 (?q # ''arguments'' @ ?q # '': {'' @ A @ ''}}'' @ tail, [], []) = Some (tail, [], [])"
    using h17 by (simp add: k12_def space_facts)
  have f12: "k12 (c # t, [], []) = None" if "c \<noteq> ?q" for c t
    using that by (simp add: k12_def)
  have f12': "k12 (?q # c # t, [], []) = None" if "c \<noteq> CHR ''a''" for c t
    using that by (simp add: k12_def)
  have h11: "star_greedy (in_class NoBrace) (\<lambda>s'. k12 (s', [], []))
               ('' '' @ [?q] @ ''arguments'' @ [?q] @ '': {'' @ A @ ''}}'' @ tail) = Some (tail, [], [])"
    using h12 by (simp add: f12 f12')
  have h8: "foldr rx_match [Lit [?q], Star WS, Lit '','', Star NoBrace] k12
              (?q # '', '' @ [?q] @ ''arguments'' @ [?q] @ '': {'' @ A @ ''}}'' @ tail, [], [])
            = Some (tail, [], [])"
    using h11 by (simp add: space_facts)
  have hq: "star_greedy (in_class NoQuote)
              (\<lambda>s'. foldr rx_match [Lit [?q], Star WS, Lit '','', Star NoBrace] k12 (s', [], []))
              (n' @ ?q # '', '' @ [?q] @ ''arguments'' @ [?q] @ '': {'' @ A @ ''}}'' @ tail)
            = Some (tail, [], [])" if "?q \<notin> set n'" for n'
  proof (rule star_greedy_take)
    show "list_all (in_class NoQuote) n'"
      using that by (auto simp: list_all_iff dq_def)
    show "?q # '', '' @ [?q] @ ''arguments'' @ [?q] @ '': {'' @ A @ ''}}'' @ tail = []
          \<or> \<not> in_class NoQuote (hd (?q # '', '' @ [?q] @ ''arguments'' @ [?q] @ '': {'' @ A @ ''}}'' @ tail))"
      by (simp add: dq_def)
    show "foldr rx_match [Lit [?q], Star WS, Lit '','', Star NoBrace] k12
              (?q # '', '' @ [?q] @ ''arguments'' @ [?q] @ '': {'' @ A @ ''}}'' @ tail, [], [])
            = Some (tail, [], [])"
      by (rule h8)
  qed
  obtain c n' where n: "name = c # n'" using name(1) by (cases name) auto
  have h2: "k2 (?q # ''name'' @ ?q # '': '' @ ?q # name @ ?q # '', '' @ [?q] @ ''arguments'' @ [?q]
                  @ '': {'' @ A @ ''}}'' @ tail, [], []) = Some (tail, [], [])"
    using hq [of n'] nq by (auto simp: k2_def n space_facts dq_def)
  have f2: "k2 (c # t, [], []) = None" if "c \<noteq> ?q" for c t
    using that by (simp add: k2_def)
  have f2': "k2 (?q # c # t, [], []) = None" if "c \<noteq> CHR ''n''" for c t
    using that by (simp add: k2_def)
  have f2q: "k2 (?q # name @ ?q # CHR '','' # t, [], []) = None" for t
  proof (cases "name = ''name''")
    case True
    then show ?thesis by (simp add: k2_def space_facts)
  next
    case False
    have "\<not> startswith (name @ ?q # CHR '','' # t) (''name'' @ [?q])"
      using False nq by (subst startswith_until) auto
    then show ?thesis by (simp add: k2_def)
  qed
  \<comment> \<open>the first repetition gives back all it took\<close>
  have tail15: "star_greedy (in_class NoBrace) (\<lambda>s'. k2 (s', [], []))
                  (?q # '', '' @ [?q] @ ''arguments'' @ [?q] @ '': {'' @ A @ ''}}'' @ tail) = None"
    by (simp add: f2 f2')
  have through: "star_greedy (in_class NoBrace) (\<lambda>s'. k2 (s', [], []))
                  (name @ ?q # '', '' @ [?q] @ ''arguments'' @ [?q] @ '': {'' @ A @ ''}}'' @ tail) = None"
  proof -
    have "star_greedy (in_class NoBrace) (\<lambda>s'. k2 (s', [], []))
                  (name @ ?q # '', '' @ [?q] @ ''arguments'' @ [?q] @ '': {'' @ A @ ''}}'' @ tail)
          = star_greedy (in_class NoBrace) (\<lambda>s'. k2 (s', [], []))
                  (?q # '', '' @ [?q] @ ''arguments'' @ [?q] @ '': {'' @ A @ ''}}'' @ tail)"
      by (rule star_greedy_through) (use name(3,4) nq in \<open>auto simp: list_all_iff intro!: f2\<close>)
    then show ?thesis by (simp only: tail15)
  qed
  have h1: "star_greedy (in_class NoBrace) (\<lambda>s'. k2 (s', [], []))
              (?q # ''name'' @ ?q # '': '' @ ?q # name @ ?q # '', '' @ [?q] @ ''arguments'' @ [?q]
                  @ '': {'' @ A @ ''}}'' @ tail) = Some (tail, [], [])"
    using through h2 f2q by (simp add: f2 f2')
  show ?thesis
    using h1 by (simp add: pat dq_def)
qed

section \<open>Decoding an invocation\<close>

text \<open>
  \<open>json.loads\<close> on an invocation returns the \<open>dict\<close> with the name and the
  arguments; the fuel of the scanner is enough for it.
\<close>

lemma scanstring_plain:
  "list_all plain s \<Longrightarrow> scanstring (s @ dq # rest) = Some (s, rest)"
  by (induction s) (auto simp: plain_def)

lemma skip_ws_stop: "\<not> json_ws c \<Longrightarrow> skip_ws (c # s) = c # s"
  by (simp add: skip_ws_def)

lemma skip_ws_space: "skip_ws (CHR '' '' # s) = skip_ws s"
  by (simp add: skip_ws_def json_ws_def)

lemma json_ws_facts: "\<not> json_ws dq" "\<not> json_ws (CHR '':'')" "\<not> json_ws (CHR '','')"
  "\<not> json_ws (CHR ''{'')" "\<not> json_ws (CHR ''}'')"
  by (simp_all add: json_ws_def dq_def)

lemma members_Cons2: "members (kv # kv' # r) = member kv @ '', '' @ members (kv' # r)"
  by (simp add: members_def)

lemma members_single: "members [kv] = member kv"
  by (simp add: members_def)

lemma members_hd: "args \<noteq> [] \<Longrightarrow> members args = dq # tl (members args)"
  by (cases args; cases "tl args") (auto simp: members_def member_def)

lemma dict_set_fresh: "k \<notin> fst ` set d \<Longrightarrow> dict_set d k v = d @ [(k, v)]"
  by (induction d) auto

lemma foldl_dict_set:
  "distinct (map fst (d @ ps)) \<Longrightarrow> foldl (\<lambda>d (k, v). dict_set d k v) d ps = d @ ps"
proof (induction ps arbitrary: d)
  case Nil
  then show ?case by simp
next
  case (Cons p ps)
  obtain k v where p: "p = (k, v)" by (cases p)
  have "dict_set d k v = d @ [(k, v)]"
    using Cons.prems p by (intro dict_set_fresh) auto
  moreover have "distinct (map fst ((d @ [(k, v)]) @ ps))"
    using Cons.prems p by auto
  ultimately show ?case using Cons.IH [of "d @ [(k, v)]"] p by simp
qed

lemma dict_of_distinct: "distinct (map fst ps) \<Longrightarrow> dict_of ps = ps"
  using foldl_dict_set [of "[]" ps] by (simp add: dict_of_def)

lemma JSONObject_members:
  assumes "args \<noteq> []"
    and "list_all (\<lambda>kv. list_all plain (fst kv) \<and> list_all plain (snd kv)) args"
    and "length args < n"
  shows "JSONObject n pairs (tl (members args) @ CHR ''}'' # rest)
           = Ok (JObj (dict_of (pairs @ arg_values args))) rest"
  using assms
proof (induction args arbitrary: n pairs rule: induct_list012)
  case 1
  then show ?case by simp
next
  case (2 kv)
  then obtain m where n: "n = Suc (Suc m)" by (cases n; cases "n - 1") auto
  obtain k v where kv: "kv = (k, v)" by (cases kv)
  have pk: "list_all plain k" and pv: "list_all plain v" using 2 kv by auto
  show ?case
    unfolding n members_single
    by (simp add: kv member_def scanstring_plain [OF pk] scanstring_plain [OF pv] skip_ws_stop skip_ws_space
        json_ws_facts arg_values_def)
next
  case (3 kv kv' r)
  then obtain m where n: "n = Suc (Suc m)" by (cases n; cases "n - 1") auto
  obtain k v where kv: "kv = (k, v)" by (cases kv)
  have pk: "list_all plain k" and pv: "list_all plain v" using 3 kv by auto
  have ih: "JSONObject (Suc m) (pairs @ [(k, JStr v)]) (tl (members (kv' # r)) @ CHR ''}'' # rest)
              = Ok (JObj (dict_of ((pairs @ [(k, JStr v)]) @ arg_values (kv' # r)))) rest"
    by (rule 3(2)) (use 3 n in auto)
  have hd: "members (kv' # r) = dq # tl (members (kv' # r))"
    by (rule members_hd) simp
  show ?case
    unfolding n members_Cons2
    apply (simp add: kv member_def scanstring_plain [OF pk] scanstring_plain [OF pv] skip_ws_stop skip_ws_space
        json_ws_facts)
    apply (subst hd)
    apply (simp add: skip_ws_stop json_ws_facts ih [simplified] arg_values_def)
    done
qed

lemma length_members: "length args \<le> length (members args)"
  by (induction args rule: induct_list012) (auto simp: members_def member_def)

lemma tool_call_arg_values: "tool_call name args = JObj [(''name'', JStr name), (''arguments'', JObj (arg_values args))]"
  by (simp add: tool_call_def arg_values_def)

lemma scan_once_arguments:
  assumes "list_all (\<lambda>kv. list_all plain (fst kv) \<and> list_all plain (snd kv)) args"
    and "distinct (map fst args)" and "length args < n"
  shows "scan_once (Suc n) (CHR ''{'' # members args @ CHR ''}'' # rest) = Ok (JObj (arg_values args)) rest"
proof (cases "args = []")
  case True
  then show ?thesis by (simp add: members_def arg_values_def skip_ws_stop json_ws_facts dq_facts(1-10))
next
  case False
  have d: "dict_of (arg_values args) = arg_values args"
    by (rule dict_of_distinct) (use assms(2) in \<open>simp add: arg_values_def comp_def\<close>)
  have "JSONObject n [] (tl (members args) @ CHR ''}'' # rest) = Ok (JObj (dict_of ([] @ arg_values args))) rest"
    by (rule JSONObject_members [OF False assms(1,3)])
  then show ?thesis
    by (subst members_hd [OF False]) (simp add: skip_ws_stop json_ws_facts d dq_facts(1-10))
qed

lemma scan_once_invocation:
  assumes "well_formed name args" and "length args < k"
  shows "scan_once (Suc (Suc (Suc (Suc k)))) (invocation name args) = Ok (tool_call name args) []"
proof -
  have pn: "list_all plain name"
    and pa: "list_all (\<lambda>kv. list_all plain (fst kv) \<and> list_all plain (snd kv)) args"
    and da: "distinct (map fst args)"
    using assms by (auto simp: well_formed_def)
  have inner: "scan_once (Suc k) (CHR ''{'' # members args @ CHR ''}'' # rest)
                 = Ok (JObj (arg_values args)) rest" for rest
    by (rule scan_once_arguments [OF pa da]) (use assms(2) in simp)
  have sn: "scanstring (name @ dq # rest) = Some (name, rest)" for rest
    by (rule scanstring_plain [OF pn])
  have inv: "invocation name args =
      CHR ''{'' # dq # ''name'' @ dq # '': '' @ dq # name @ dq # '', '' @ dq # ''arguments'' @ dq # '': ''
        @ CHR ''{'' # members args @ CHR ''}'' # ''}''"
    by (simp add: invocation_def dq_def)
  have sk: "scanstring (''name'' @ dq # rest) = Some (''name'', rest)"
    "scanstring (''arguments'' @ dq # rest) = Some (''arguments'', rest)" for rest
    by (rule scanstring_plain; simp add: plain_def dq_def bslash_def)+
  have str: "scan_once (Suc n) (dq # name @ dq # rest) = Ok (JStr name) rest" for n rest
    by (simp add: sn)
  show ?thesis
    apply (subst inv)
    apply (subst scan_once.simps(3))
    apply (simp add: skip_ws_stop skip_ws_space json_ws_facts dq_facts(1-10) sk [simplified] str inner
        dict_of_def tool_call_arg_values del: scan_once.simps(3))
    done
qed

lemma json_loads_invocation:
  assumes "well_formed name args"
  shows "json_loads (invocation name args) = Some (tool_call name args)"
proof -
  have 4: "length args + 4 \<le> length (invocation name args)"
    using length_members [of args] by (simp add: invocation_def)
  define k where "k = length (invocation name args) - 3"
  from 4 have k: "length (invocation name args) = Suc (Suc (Suc k))" "length args < k"
    unfolding k_def by linarith+
  have "skip_ws (invocation name args) = invocation name args"
    by (simp add: invocation_def skip_ws_stop json_ws_facts)
  then show ?thesis
    using scan_once_invocation [OF assms k(2)]
    by (simp add: json_loads_def k(1) skip_ws_def)
qed

section \<open>The extractor on well-formed invocations\<close>

lemma block_hit:
  "CHR 0x60 \<notin> set pre \<Longrightarrow> m \<noteq> [] \<Longrightarrow> match_here tool_block_pattern (m @ tail) = Some (tail, mk, g) \<Longrightarrow>
   findall True tool_block_pattern (pre @ m @ tail) = g # findall True tool_block_pattern tail"
  unfolding tool_block_pattern_def using findall_hit [where grp = True] by simp

lemma block_miss: "CHR 0x60 \<notin> set s \<Longrightarrow> findall True tool_block_pattern s = []"
  unfolding tool_block_pattern_def by (rule findall_miss)

lemma tag_hit:
  "CHR ''<'' \<notin> set pre \<Longrightarrow> m \<noteq> [] \<Longrightarrow> match_here tag_pattern (m @ tail) = Some (tail, mk, g) \<Longrightarrow>
   findall True tag_pattern (pre @ m @ tail) = g # findall True tag_pattern tail"
  unfolding tag_pattern_def using findall_hit [where grp = True] by simp

lemma tag_miss: "CHR ''<'' \<notin> set s \<Longrightarrow> findall True tag_pattern s = []"
  unfolding tag_pattern_def by (rule findall_miss)

lemma json_hit:
  "CHR ''{'' \<notin> set pre \<Longrightarrow> m \<noteq> [] \<Longrightarrow> match_here json_pattern (m @ tail) = Some (tail, mk, g) \<Longrightarrow>
   findall False json_pattern (pre @ m @ tail) = m # findall False json_pattern tail"
  unfolding json_pattern_def using findall_hit [where grp = False] by simp

lemma json_miss: "CHR ''{'' \<notin> set s \<Longrightarrow> findall False json_pattern s = []"
  unfolding json_pattern_def by (rule findall_miss)

lemma strip_id: "s \<noteq> [] \<Longrightarrow> \<not> isspace (hd s) \<Longrightarrow> \<not> isspace (last s) \<Longrightarrow> strip s = s"
proof -
  assume s: "s \<noteq> []" "\<not> isspace (hd s)" "\<not> isspace (last s)"
  have a: "dropWhile isspace s = s"
    using s by (cases s) simp_all
  have "\<not> isspace (hd (rev s))" using s by (simp add: hd_rev)
  then have b: "dropWhile isspace (rev s) = rev s"
    using s by (cases "rev s") simp_all
  show ?thesis by (simp add: strip_def a b)
qed

lemma notin_members:
  "(\<forall>kv \<in> set args. x \<notin> set (fst kv) \<and> x \<notin> set (snd kv)) \<Longrightarrow>
   x \<noteq> dq \<Longrightarrow> x \<noteq> CHR '':'' \<Longrightarrow> x \<noteq> CHR '' '' \<Longrightarrow> x \<noteq> CHR '','' \<Longrightarrow> x \<notin> set (members args)"
proof (induction args rule: induct_list012)
  case 1
  then show ?case by (simp add: members_def)
next
  case (2 kv)
  then show ?case by (simp add: members_single member_def)
next
  case (3 kv kv' r)
  then show ?case by (simp add: members_Cons2 member_def)
qed

lemma notin_invocation:
  "x \<notin> set name \<Longrightarrow> x \<notin> set (members args) \<Longrightarrow> x \<notin> set ''{}: ,namearguments'' \<Longrightarrow> x \<noteq> dq \<Longrightarrow>
   x \<notin> set (invocation name args)"
  by (simp add: invocation_def dq_def)

lemma plain_facts:
  "plain c \<Longrightarrow> c \<noteq> dq \<and> c \<noteq> CHR ''{'' \<and> c \<noteq> CHR ''}'' \<and> c \<noteq> CHR 0x60 \<and> c \<noteq> CHR ''<'' \<and> c \<noteq> nl"
  by (auto simp: plain_def nl_def)

lemma well_formed_chars:
  assumes "well_formed name args"
  shows "CHR 0x60 \<notin> set (invocation name args)" "CHR ''<'' \<notin> set (invocation name args)"
    "nl \<notin> set (invocation name args)"
    "dq \<notin> set name" "CHR ''{'' \<notin> set name" "CHR ''}'' \<notin> set name" "name \<noteq> []"
    "CHR ''{'' \<notin> set (members args)" "CHR ''}'' \<notin> set (members args)"
proof -
  have pn: "\<forall>c \<in> set name. plain c"
    and pa: "\<forall>kv \<in> set args. (\<forall>c \<in> set (fst kv). plain c) \<and> (\<forall>c \<in> set (snd kv). plain c)"
    using assms by (auto simp: well_formed_def list_all_iff)
  have n: "x \<notin> set name" if "\<not> plain x" for x using pn that by auto
  have a: "\<forall>kv \<in> set args. x \<notin> set (fst kv) \<and> x \<notin> set (snd kv)" if "\<not> plain x" for x
    using pa that by auto
  have np: "\<not> plain (CHR 0x60)" "\<not> plain (CHR ''<'')" "\<not> plain nl" "\<not> plain dq"
    "\<not> plain (CHR ''{'')" "\<not> plain (CHR ''}'')"
    by (simp_all add: plain_def nl_def)
  have m: "x \<notin> set (members args)"
    if "\<not> plain x" "x \<noteq> dq" "x \<noteq> CHR '':''" "x \<noteq> CHR '' ''" "x \<noteq> CHR '',''" for x
    by (rule notin_members [OF a [OF that(1)] that(2-5)])
  show "CHR 0x60 \<notin> set (invocation name args)"
    by (rule notin_invocation [OF n [OF np(1)] m [OF np(1)]]) (simp_all add: dq_def)
  show "CHR ''<'' \<notin> set (invocation name args)"
    by (rule notin_invocation [OF n [OF np(2)] m [OF np(2)]]) (simp_all add: dq_def)
  show "nl \<notin> set (invocation name args)"
    by (rule notin_invocation [OF n [OF np(3)] m [OF np(3)]]) (simp_all add: dq_def nl_def)
  show "dq \<notin> set name" "CHR ''{'' \<notin> set name" "CHR ''}'' \<notin> set name"
    using n np by auto
  show "name \<noteq> []" using assms by (simp add: well_formed_def)
  show "CHR ''{'' \<notin> set (members args)"
    by (rule m [OF np(5)]) (simp_all add: dq_def)
  show "CHR ''}'' \<notin> set (members args)"
    by (rule m [OF np(6)]) (simp_all add: dq_def)
qed

lemma invocation_ends:
  "invocation name args \<noteq> []" "hd (invocation name args) = CHR ''{''" "last (invocation name args) = CHR ''}''"
  by (simp_all add: invocation_def)

lemma match_json_invocation:
  assumes "well_formed name args"
  shows "match_here json_pattern (invocation name args @ tail) = Some (tail, [], [])"
proof -
  note c = well_formed_chars [OF assms]
  have "invocation name args @ tail =
      ''{'' @ [dq] @ ''name'' @ [dq] @ '': '' @ [dq] @ name @ [dq] @ '', '' @ [dq] @ ''arguments'' @ [dq]
              @ '': {'' @ members args @ ''}}'' @ tail"
    by (simp add: invocation_def dq_def)
  then show ?thesis
    using match_invocation [OF c(7) c(4) c(5) c(6) c(8) c(9), of tail] by simp
qed

lemma match_block_invocation:
  assumes "well_formed name args"
  shows "match_here tool_block_pattern (fenced (invocation name args) @ tail)
           = Some (tail, invocation name args @ [nl] @ ''```'' @ tail, invocation name args)"
  by (rule match_fenced)
     (use well_formed_chars [OF assms] invocation_ends [of name args] in \<open>auto simp: isspace_def\<close>)

lemma match_tag_invocation:
  assumes "well_formed name args"
  shows "match_here tag_pattern (tagged (invocation name args) @ tail)
           = Some (tail, invocation name args @ ''</tool_call>'' @ tail, invocation name args)"
  by (rule match_tagged)
     (use well_formed_chars [OF assms] invocation_ends [of name args] in \<open>auto simp: isspace_def\<close>)

lemma strip_invocation: "strip (invocation name args) = invocation name args"
  by (rule strip_id) (simp_all add: invocation_ends isspace_def)

lemma py_eq_items_strings:
  "(\<forall>kv \<in> set xs. \<exists>v. snd kv = JStr v \<and> map_of d (fst kv) = Some (JStr v)) \<Longrightarrow> py_eq_items E xs d"
  by (induction xs) auto

lemma py_eq_tool_call:
  assumes "distinct (map fst args)"
  shows "py_eq E (tool_call name args) (tool_call name args)"
proof -
  have "py_eq_items E (arg_values args) (arg_values args)"
  proof (rule py_eq_items_strings, rule ballI)
    fix kv assume "kv \<in> set (arg_values args)"
    then obtain k v where kv: "kv = (k, JStr v)" "(k, v) \<in> set args"
      by (auto simp: arg_values_def)
    have "distinct (map fst (arg_values args))"
      using assms by (simp add: arg_values_def comp_def)
    moreover have "(k, JStr v) \<in> set (arg_values args)"
      using kv(2) by (force simp: arg_values_def)
    ultimately have "map_of (arg_values args) k = Some (JStr v)"
      by simp
    then show "\<exists>v. snd kv = JStr v \<and> map_of (arg_values args) (fst kv) = Some (JStr v)"
      using kv by simp
  qed
  then show ?thesis
    by (simp add: tool_call_arg_values)
qed

lemma prose_chars:
  "prose s \<Longrightarrow> CHR 0x60 \<notin> set s" "prose s \<Longrightarrow> CHR ''<'' \<notin> set s" "prose s \<Longrightarrow> CHR ''{'' \<notin> set s"
  by (auto simp: prose_def list_all_iff)

lemma blocks_fenced:
  assumes "well_formed name args" "CHR 0x60 \<notin> set pre"
  shows "findall True tool_block_pattern (pre @ fenced (invocation name args) @ tail)
           = invocation name args # findall True tool_block_pattern tail"
  by (rule block_hit [OF assms(2) _ match_block_invocation [OF assms(1)]]) (simp add: fenced_def)

lemma tags_tagged:
  assumes "well_formed name args" "CHR ''<'' \<notin> set pre"
  shows "findall True tag_pattern (pre @ tagged (invocation name args) @ tail)
           = invocation name args # findall True tag_pattern tail"
  by (rule tag_hit [OF assms(2) _ match_tag_invocation [OF assms(1)]]) (simp add: tagged_def)

lemma objects_bare:
  assumes "well_formed name args" "CHR ''{'' \<notin> set pre"
  shows "findall False json_pattern (pre @ invocation name args @ tail)
           = invocation name args # findall False json_pattern tail"
  by (rule json_hit [OF assms(2) invocation_ends(1) match_json_invocation [OF assms(1)]])

lemma objects_fenced:
  assumes "well_formed name args" "CHR ''{'' \<notin> set pre"
  shows "findall False json_pattern (pre @ fenced (invocation name args) @ tail)
           = invocation name args # findall False json_pattern ([nl] @ ''```'' @ tail)"
proof -
  have "CHR ''{'' \<notin> set (pre @ ''```tool'' @ [nl])"
    using assms(2) by (simp add: nl_def)
  from objects_bare [OF assms(1) this, of "[nl] @ ''```'' @ tail"] show ?thesis
    by (simp add: fenced_def)
qed

lemma objects_tagged:
  assumes "well_formed name args" "CHR ''{'' \<notin> set pre"
  shows "findall False json_pattern (pre @ tagged (invocation name args) @ tail)
           = invocation name args # findall False json_pattern (''</tool_call>'' @ tail)"
proof -
  have "CHR ''{'' \<notin> set (pre @ ''<tool_call>'')"
    using assms(2) by simp
  from objects_bare [OF assms(1) this, of "''</tool_call>'' @ tail"] show ?thesis
    by (simp add: tagged_def)
qed

lemma append_parsed_invocation:
  "well_formed name args \<Longrightarrow>
   append_parsed tool_calls (invocation name args # matches)
     = append_parsed (tool_calls @ [tool_call name args]) matches"
  by (simp add: strip_invocation json_loads_invocation)

lemma append_new_seen:
  assumes "well_formed name args" "tool_call name args \<in> set tool_calls"
  shows "append_new E tool_calls (invocation name args # matches) = append_new E tool_calls matches"
proof -
  have "py_eq E (tool_call name args) (tool_call name args)"
    using assms(1) by (intro py_eq_tool_call) (simp add: well_formed_def)
  then have "py_in E (tool_call name args) tool_calls"
    using assms(2) unfolding py_in_def list_ex_iff by blast
  moreover obtain d where "tool_call name args = JObj d"
    by (simp add: tool_call_def)
  ultimately show ?thesis
    using json_loads_invocation [OF assms(1)] by simp
qed

lemma append_new_fresh:
  assumes "well_formed name args"
  shows "append_new E [] (invocation name args # matches) = append_new E [tool_call name args] matches"
  using json_loads_invocation [OF assms] by (simp add: tool_call_def py_in_def)

lemma fenced_chars:
  assumes "well_formed name args"
  shows "CHR ''<'' \<notin> set (fenced (invocation name args))"
  using well_formed_chars(2) [OF assms] by (simp add: fenced_def nl_def)

lemma tagged_chars:
  assumes "well_formed name args"
  shows "CHR 0x60 \<notin> set (tagged (invocation name args))"
  using well_formed_chars(1) [OF assms] by (simp add: tagged_def)

lemma parse_fenced:
  assumes wf: "well_formed name args" and pre: "prose pre" and post: "prose post"
  shows "parse_tool_calls_from_text E (pre @ fenced (invocation name args) @ post) = [tool_call name args]"
proof -
  let ?J = "invocation name args"
  have p1: "findall True tool_block_pattern (pre @ fenced ?J @ post) = [?J]"
    by (simp add: blocks_fenced [OF wf prose_chars(1) [OF pre]] block_miss [OF prose_chars(1) [OF post]])
  have p2: "findall True tag_pattern (pre @ fenced ?J @ post) = []"
    by (rule tag_miss) (simp add: prose_chars(2) [OF pre] prose_chars(2) [OF post] fenced_chars [OF wf])
  have "CHR ''{'' \<notin> set ([nl] @ ''```'' @ post)"
    using prose_chars(3) [OF post] by (simp add: nl_def)
  from json_miss [OF this] have p3: "findall False json_pattern (pre @ fenced ?J @ post) = [?J]"
    by (simp only: objects_fenced [OF wf prose_chars(3) [OF pre]])
  show ?thesis
    unfolding parse_tool_calls_from_text_def p1 p2 p3
    by (simp only: append_parsed_invocation [OF wf] append_parsed.simps(1) append_Nil
          append_new_seen [OF wf] append_new.simps(1) list.set insertI1)
qed

lemma parse_tagged:
  assumes wf: "well_formed name args" and pre: "prose pre" and post: "prose post"
  shows "parse_tool_calls_from_text E (pre @ tagged (invocation name args) @ post) = [tool_call name args]"
proof -
  let ?J = "invocation name args"
  have p1: "findall True tool_block_pattern (pre @ tagged ?J @ post) = []"
    by (rule block_miss) (simp add: prose_chars(1) [OF pre] prose_chars(1) [OF post] tagged_chars [OF wf])
  have p2: "findall True tag_pattern (pre @ tagged ?J @ post) = [?J]"
    by (simp add: tags_tagged [OF wf prose_chars(2) [OF pre]] tag_miss [OF prose_chars(2) [OF post]])
  have "CHR ''{'' \<notin> set (''</tool_call>'' @ post)"
    using prose_chars(3) [OF post] by simp
  from json_miss [OF this] have p3: "findall False json_pattern (pre @ tagged ?J @ post) = [?J]"
    by (simp only: objects_tagged [OF wf prose_chars(3) [OF pre]])
  show ?thesis
    unfolding parse_tool_calls_from_text_def p1 p2 p3
    by (simp only: append_parsed_invocation [OF wf] append_parsed.simps(1) append_Nil
          append_new_seen [OF wf] append_new.simps(1) list.set insertI1)
qed

lemma parse_bare:
  assumes wf: "well_formed name args" and pre: "prose pre" and post: "prose post"
  shows "parse_tool_calls_from_text E (pre @ invocation name args @ post) = [tool_call name args]"
proof -
  let ?J = "invocation name args"
  have p1: "findall True tool_block_pattern (pre @ ?J @ post) = []"
    by (rule block_miss)
       (simp add: prose_chars(1) [OF pre] prose_chars(1) [OF post] well_formed_chars(1) [OF wf])
  have p2: "findall True tag_pattern (pre @ ?J @ post) = []"
    by (rule tag_miss)
       (simp add: prose_chars(2) [OF pre] prose_chars(2) [OF post] well_formed_chars(2) [OF wf])
  have p3: "findall False json_pattern (pre @ ?J @ post) = [?J]"
    by (simp only: objects_bare [OF wf prose_chars(3) [OF pre]] json_miss [OF prose_chars(3) [OF post]])
  show ?thesis
    unfolding parse_tool_calls_from_text_def p1 p2 p3
    by (simp only: append_parsed.simps(1) append_new_fresh [OF wf] append_new.simps(1))
qed


text \<open>
  Claim C3, as amended. Let the invocation be written as the docstring and the system
  prompt show it: the key \<open>name\<close> first, then \<open>arguments\<close>, a flat object of
  strings, all of plain characters. Its JSON value is \<open>tool_call name args\<close>, and
  for a text that holds it once, between two stretches of prose, in a fenced block, in
  a tag pair or bare, \<open>parse_tool_calls_from_text\<close> returns exactly that one call. In
  the first two cases the third pattern finds the object again and the test
  \<open>data not in tool_calls\<close> drops it.
\<close>

theorem invocation_recovered:
  assumes "well_formed name args" and "prose pre" and "prose post"
  shows "json_loads (invocation name args) = Some (tool_call name args)
     \<and> parse_tool_calls_from_text E (pre @ fenced (invocation name args) @ post) = [tool_call name args]
     \<and> parse_tool_calls_from_text E (pre @ tagged (invocation name args) @ post) = [tool_call name args]
     \<and> parse_tool_calls_from_text E (pre @ invocation name args @ post) = [tool_call name args]"
  using json_loads_invocation [OF assms(1)] parse_fenced [OF assms] parse_tagged [OF assms]
    parse_bare [OF assms]
  by (intro conjI)

theorem invocation_recovered_witness:
  "parse_tool_calls_from_text (demo_env plain_answer 0 [])
      (''I will read it. '' @ fenced (invocation ''read_file'' [(''path'', ''notes.txt'')]) @ '' Then I go on.'')
     = [read_notes]
   \<and> parse_tool_calls_from_text (demo_env plain_answer 0 [])
      (''I will read it. '' @ tagged (invocation ''read_file'' [(''path'', ''notes.txt'')]) @ '' Then I go on.'')
     = [read_notes]
   \<and> parse_tool_calls_from_text (demo_env plain_answer 0 [])
      (''I will read it. '' @ invocation ''read_file'' [(''path'', ''notes.txt'')] @ '' Then I go on.'')
     = [read_notes]"
proof -
  have wf: "well_formed ''read_file'' [(''path'', ''notes.txt'')]"
    by (simp add: well_formed_def plain_def dq_def bslash_def)
  have p: "prose ''I will read it. ''" "prose '' Then I go on.''"
    by (simp_all add: prose_def)
  show ?thesis
    using invocation_recovered [OF wf p, of "demo_env plain_answer 0 []"]
    by (simp only: read_notes_def)
qed

text \<open>
  Claim C3 as stated fails: a bare JSON object with a string \<open>name\<close> and an object
  \<open>arguments\<close> at its top level, the key \<open>arguments\<close> written first, is valid JSON
  and the extractor returns no call for it, since the third pattern asks for \<open>name\<close>
  before \<open>arguments\<close>.
\<close>

theorem arguments_first_missed:
  "json_loads arguments_first
     = Some (JObj [(''arguments'', JObj [(''path'', JStr ''notes.txt'')]), (''name'', JStr ''read_file'')])
   \<and> parse_tool_calls_from_text (demo_env plain_answer 0 []) arguments_first = []"
  by code_simp



end
